theory Spec2Isabelle
  imports Complex_Main "HOL-Library.Word"
begin

section \<open>Strings\<close>

text \<open>
  A \<open>QString\<close> is a sequence of 16-bit code units. Literals of the source that are plain
  ASCII are written through \<open>qs\<close>; the Chinese literals are given by their code units.
\<close>

type_synonym qchar = "16 word"
type_synonym qstring = "qchar list"

definition qs :: "string \<Rightarrow> qstring" where
  "qs s = map (\<lambda>c. of_nat (of_char c)) s"

text \<open>\<open>QString::number(int)\<close>, also what \<open>QVariant(int).toString()\<close> gives.\<close>

fun decimal :: "nat \<Rightarrow> qstring" where
  "decimal n = (if n < 10 then [of_nat (48 + n)]
                else decimal (n div 10) @ [of_nat (48 + n mod 10)])"

declare decimal.simps [simp del]

text \<open>\<open>QString::contains(needle)\<close>, case sensitive: the needle occurs at some offset.\<close>

definition contains :: "qstring \<Rightarrow> qstring \<Rightarrow> bool" where
  "contains h n = list_ex (\<lambda>i. take (length n) (drop i h) = n) [0..<Suc (length h)]"

section \<open>Failures of the C++ code\<close>

text \<open>
  The source has no exceptions. What can go wrong is undefined behaviour: calling a member
  of a null pointer (\<open>model->...\<close> on a null model, \<open>model->item(i, j)->text()\<close> where the
  cell holds no item) and \<open>QList::operator[]\<close> outside the list. Both are results of the
  model, so that a run that crashes is told apart from a run that returns.
\<close>

datatype error = NullPointer | IndexOutOfRange

section \<open>Column definitions (dataeditorwidget.h)\<close>

datatype WellTestColumnType =
  SerialNumber | Date | Time | TimeOfDay | Pressure | Temperature | FlowRate
  | Depth | Viscosity | Density | Permeability | Porosity | WellRadius
  | SkinFactor | Distance | Volume | PressureDrop | Custom

record ColumnDefinition =
  name :: qstring
  type :: WellTestColumnType
  unit :: qstring
  isRequired :: bool
  decimalPlaces :: int

text \<open>The default constructor: \<open>type(Custom), isRequired(false), decimalPlaces(3)\<close>.\<close>

definition ColumnDefinition0 :: ColumnDefinition where
  "ColumnDefinition0 =
     \<lparr>name = [], type = Custom, unit = [], isRequired = False, decimalPlaces = 3\<rparr>"

section \<open>The grid: \<open>QStandardItemModel\<close>\<close>

text \<open>
  The table keeps a column count, one header item per column and one item per cell; a
  header or a cell may hold no item (a null \<open>QStandardItem*\<close>), which is \<open>None\<close> here.
  The row count is the number of rows stored.
\<close>

record QStandardItemModel =
  columnCount :: nat
  columnHeaderItems :: "qstring option list"
  children :: "qstring option list list"

definition rowCount :: "QStandardItemModel \<Rightarrow> nat" where
  "rowCount m = length (children m)"

text \<open>The shape Qt maintains: every row and the header list have \<open>columnCount\<close> slots.\<close>

definition well_formed :: "QStandardItemModel \<Rightarrow> bool" where
  "well_formed m \<longleftrightarrow> length (columnHeaderItems m) = columnCount m
            \<and> list_all (\<lambda>row. length row = columnCount m) (children m)"

text \<open>\<open>clear()\<close>: no rows, no columns, no headers.\<close>

definition clear :: QStandardItemModel where
  "clear = \<lparr>columnCount = 0, columnHeaderItems = [], children = []\<rparr>"

definition resize :: "nat \<Rightarrow> 'a option list \<Rightarrow> 'a option list" where
  "resize n xs = take n xs @ replicate (n - length xs) None"

definition setColumnCount :: "nat \<Rightarrow> QStandardItemModel \<Rightarrow> QStandardItemModel" where
  "setColumnCount n m =
     \<lparr>columnCount = n,
      columnHeaderItems = resize n (columnHeaderItems m),
      children = map (resize n) (children m)\<rparr>"

definition setRowCount :: "nat \<Rightarrow> QStandardItemModel \<Rightarrow> QStandardItemModel" where
  "setRowCount n m =
     m\<lparr>children := take n (children m)
                     @ replicate (n - rowCount m) (replicate (columnCount m) None)\<rparr>"

text \<open>
  \<open>item(row, column)\<close>: the cell's item, null when the position is outside the table or
  the cell holds none. The column is an \<open>int\<close> of the caller and may be negative.
\<close>

definition item :: "QStandardItemModel \<Rightarrow> nat \<Rightarrow> int \<Rightarrow> qstring option" where
  "item m r c =
     (if r < rowCount m \<and> 0 \<le> c \<and> c < int (columnCount m)
      then children m ! r ! nat c else None)"

text \<open>\<open>setItem(row, column, new QStandardItem(text))\<close>; the table grows to hold the cell.\<close>

definition setItem :: "nat \<Rightarrow> nat \<Rightarrow> qstring \<Rightarrow> QStandardItemModel \<Rightarrow> QStandardItemModel" where
  "setItem r c s m =
     (let m1 = (if rowCount m \<le> r then setRowCount (r + 1) m else m);
          m2 = (if columnCount m1 \<le> c then setColumnCount (c + 1) m1 else m1)
      in m2\<lparr>children := (children m2)[r := (children m2 ! r)[c := Some s]]\<rparr>)"

text \<open>\<open>insertColumn(column)\<close>: a column of empty cells, refused beyond the last column.\<close>

definition insertColumn :: "nat \<Rightarrow> QStandardItemModel \<Rightarrow> QStandardItemModel" where
  "insertColumn col m =
     (if col \<le> columnCount m
      then \<lparr>columnCount = columnCount m + 1,
            columnHeaderItems =
              take col (columnHeaderItems m) @ [None] @ drop col (columnHeaderItems m),
            children = map (\<lambda>row. take col row @ [None] @ drop col row) (children m)\<rparr>
      else m)"

definition setHorizontalHeaderItem ::
  "nat \<Rightarrow> qstring \<Rightarrow> QStandardItemModel \<Rightarrow> QStandardItemModel" where
  "setHorizontalHeaderItem col s m =
     (let m1 = (if columnCount m \<le> col then setColumnCount (col + 1) m else m)
      in m1\<lparr>columnHeaderItems := (columnHeaderItems m1)[col := Some s]\<rparr>)"

definition setHorizontalHeaderLabels ::
  "qstring list \<Rightarrow> QStandardItemModel \<Rightarrow> QStandardItemModel" where
  "setHorizontalHeaderLabels labels m =
     (let m1 = (if columnCount m < length labels then setColumnCount (length labels) m else m)
      in m1\<lparr>columnHeaderItems :=
               map Some labels @ drop (length labels) (columnHeaderItems m1)\<rparr>)"

text \<open>
  \<open>appendRow(items)\<close>: the column count grows to the number of items when that is larger;
  the new row holds the items in order and no item in the columns after them.
\<close>

definition appendRow :: "qstring list \<Rightarrow> QStandardItemModel \<Rightarrow> QStandardItemModel" where
  "appendRow items m =
     (let m1 = (if columnCount m < length items then setColumnCount (length items) m else m)
      in m1\<lparr>children := children m1
               @ [map Some items @ replicate (columnCount m1 - length items) None]\<rparr>)"

text \<open>
  \<open>headerData(section, Qt::Horizontal).toString()\<close>: the header item's text, and the
  section number counted from one where the column has no header item.
\<close>

definition headerData :: "QStandardItemModel \<Rightarrow> nat \<Rightarrow> qstring" where
  "headerData m i =
     (if i < columnCount m
      then (case columnHeaderItems m ! i of Some t \<Rightarrow> t | None \<Rightarrow> decimal (i + 1))
      else [])"

section \<open>JSON values\<close>

text \<open>
  \<open>QJsonValue\<close>; an object is a list of members looked up by key. The conversions
  \<open>toObject\<close>, \<open>toArray\<close> and \<open>toString\<close> give the empty object, array or string for a
  value of another kind, as Qt does.
\<close>

datatype 'd json =
  JNull | JBool bool | JDouble 'd | JString qstring
  | JArray "'d json list" | JObject "(qstring \<times> 'd json) list" | JUndefined

definition toObject :: "'d json \<Rightarrow> (qstring \<times> 'd json) list" where
  "toObject v = (case v of JObject kvs \<Rightarrow> kvs | _ \<Rightarrow> [])"

definition toArray :: "'d json \<Rightarrow> 'd json list" where
  "toArray v = (case v of JArray xs \<Rightarrow> xs | _ \<Rightarrow> [])"

definition toString :: "'d json \<Rightarrow> qstring" where
  "toString v = (case v of JString s \<Rightarrow> s | _ \<Rightarrow> [])"

definition containsKey :: "(qstring \<times> 'd json) list \<Rightarrow> qstring \<Rightarrow> bool" where
  "containsKey obj k = (map_of obj k \<noteq> None)"

definition member :: "(qstring \<times> 'd json) list \<Rightarrow> qstring \<Rightarrow> 'd json" where
  "member obj k = (case map_of obj k of Some v \<Rightarrow> v | None \<Rightarrow> JUndefined)"

section \<open>Serialization (dataeditorwidget.cpp)\<close>

text \<open>
  \<open>serializeModelToJson\<close>: the header object, then one object per row. Reading a cell is
  \<open>m_dataModel->item(i, j)->text()\<close>, which has no defined result where the cell holds no
  item.
\<close>

definition rowTexts :: "QStandardItemModel \<Rightarrow> nat \<Rightarrow> qstring list option" where
  "rowTexts m i = those (map (\<lambda>j. item m i (int j)) [0..<columnCount m])"

definition serializeModelToJson :: "QStandardItemModel \<Rightarrow> error + 'd json list" where
  "serializeModelToJson m =
     (let headers = map (headerData m) [0..<columnCount m];
          headerObj = JObject [(qs ''headers'', JArray (map JString headers))]
      in case those (map (rowTexts m) [0..<rowCount m]) of
           None \<Rightarrow> Inl NullPointer
         | Some rows \<Rightarrow>
             Inr (headerObj
                  # map (\<lambda>row. JObject [(qs ''row_data'', JArray (map JString row))]) rows))"

text \<open>
  \<open>deserializeJsonToModel\<close>: the grid and the registry are cleared first; the first element
  gives the headers and one default definition per header; every later element that has a
  \<open>row_data\<close> member is appended as a row of its values.
\<close>

definition deserializeRow :: "'d json \<Rightarrow> QStandardItemModel \<Rightarrow> QStandardItemModel" where
  "deserializeRow v m =
     (let rowObj = toObject v
      in if containsKey rowObj (qs ''row_data'')
         then appendRow (map toString (toArray (member rowObj (qs ''row_data'')))) m
         else m)"

definition deserializeJsonToModel ::
  "'d json list \<Rightarrow> QStandardItemModel \<times> ColumnDefinition list
     \<Rightarrow> QStandardItemModel \<times> ColumnDefinition list" where
  "deserializeJsonToModel array st =
     (let m0 = clear; defs0 = []
      in if array = [] then (m0, defs0)
         else
           let headerObj = toObject (hd array);
               (m1, defs1) =
                 (if containsKey headerObj (qs ''headers'')
                  then let headerLabels = map toString (toArray (member headerObj (qs ''headers'')))
                       in (setHorizontalHeaderLabels headerLabels m0,
                           defs0 @ map (\<lambda>h. ColumnDefinition0\<lparr>name := h\<rparr>) headerLabels)
                  else (m0, defs0))
           in (fold deserializeRow (tl array) m1, defs1))"

section \<open>The Qt library under the calculations\<close>

text \<open>
  The calculations (datacalculate.cpp) call into Qt for floating-point arithmetic, for the
  conversions between text and numbers, dates and times, for the clock and for the case
  folding of characters. None of that is code of this program, and IEEE arithmetic is not
  reproduced here: the library is a parameter of the model. \<open>'d\<close> stands for \<open>double\<close>.
  \<^item> \<open>toDouble s\<close> is \<open>s.toDouble(&ok)\<close>: \<open>Some v\<close> when \<open>ok\<close> comes back true;
  \<^item> \<open>number_f3 v\<close> is \<open>QString::number(v, 'f', 3)\<close>;
  \<^item> \<open>dsub\<close> and \<open>ddiv\<close> are subtraction and division of doubles, \<open>fromInt n\<close> the double
    of an integer value (the conversion of \<open>qint64\<close>, and literals such as \<open>3600.0\<close>);
  \<^item> \<open>QDate_fromString s format\<close> and \<open>QTime_fromString s format\<close> are \<open>QDate::fromString\<close>
    and \<open>QTime::fromString\<close>, giving a date as its Julian day number and a time as its
    milliseconds since midnight;
  \<^item> \<open>currentDate\<close> is \<open>QDate::currentDate()\<close>, taken to be the same day throughout one
    call;
  \<^item> \<open>foldCase\<close> is the folding \<open>Qt::CaseInsensitive\<close> compares under.
\<close>

record 'd qt =
  toDouble :: "qstring \<Rightarrow> 'd option"
  number_f3 :: "'d \<Rightarrow> qstring"
  dsub :: "'d \<Rightarrow> 'd \<Rightarrow> 'd"
  ddiv :: "'d \<Rightarrow> 'd \<Rightarrow> 'd"
  fromInt :: "int \<Rightarrow> 'd"
  QDate_fromString :: "qstring \<Rightarrow> qstring \<Rightarrow> int"
  QTime_fromString :: "qstring \<Rightarrow> qstring \<Rightarrow> int"
  currentDate :: int
  foldCase :: "qchar \<Rightarrow> qchar"

text \<open>\<open>h.contains(needle, Qt::CaseInsensitive)\<close>.\<close>

definition containsCI :: "'d qt \<Rightarrow> qstring \<Rightarrow> qstring \<Rightarrow> bool" where
  "containsCI L h n = contains (map (foldCase L) h) (map (foldCase L) n)"

subsection \<open>Dates, times and instants\<close>

text \<open>
  A \<open>QDate\<close> is a Julian day number, valid inside Qt's range; the null date \<open>QDate()\<close> lies
  below it. A \<open>QTime\<close> is a number of milliseconds since midnight, valid from 0 up to the
  length of a day; the null time \<open>QTime()\<close> is \<open>-1\<close>.
\<close>

definition QDate_null :: int where
  "QDate_null = - (2 ^ 63)"

definition QDate_isValid :: "int \<Rightarrow> bool" where
  "QDate_isValid jd \<longleftrightarrow> - 784350574879 \<le> jd \<and> jd \<le> 784354017364"

definition QTime_null :: int where
  "QTime_null = - 1"

definition QTime_isValid :: "int \<Rightarrow> bool" where
  "QTime_isValid mds \<longleftrightarrow> - 1 < mds \<and> mds < 86400000"

text \<open>
  \<open>QDateTime(date, time)\<close> is a local time. The local time zone is taken to keep one offset
  from UTC over the instants of a call, so that instants compare and subtract as local
  times do; results are not bounded to 64 bits.
\<close>

record QDateTime =
  date :: int
  time :: int

definition toMSecs :: "QDateTime \<Rightarrow> int" where
  "toMSecs dt = date dt * 86400000 + time dt"

text \<open>Integer division of C++, which truncates towards zero.\<close>

definition cdiv :: "int \<Rightarrow> int \<Rightarrow> int" where
  "cdiv a b = sgn a * sgn b * (\<bar>a\<bar> div \<bar>b\<bar>)"

definition secsTo :: "QDateTime \<Rightarrow> QDateTime \<Rightarrow> int" where
  "secsTo a b = cdiv (toMSecs b - toMSecs a) 1000"

definition earlier :: "QDateTime \<Rightarrow> QDateTime \<Rightarrow> bool" where
  "earlier a b \<longleftrightarrow> toMSecs a < toMSecs b"

definition addDays :: "int \<Rightarrow> QDateTime \<Rightarrow> QDateTime" where
  "addDays n dt = dt\<lparr>date := date dt + n\<rparr>"

section \<open>The calculations (datacalculate.cpp)\<close>

record TimeConversionConfig =
  dateColumnIndex :: int
  timeColumnIndex :: int
  sourceTimeColumnIndex :: int
  outputUnit :: qstring
  newColumnName :: qstring
  useDateAndTime :: bool

text \<open>
  \<open>TimeConversionResult\<close> and \<open>PressureDropResult\<close> have the same five fields. A local
  \<open>result\<close> of either type starts with empty strings and with indeterminate \<open>bool\<close> and
  \<open>int\<close> fields; the functions below take those starting contents as the argument
  \<open>uninit\<close>, and a field the code never assigns keeps its value from there.
\<close>

record CalcResult =
  success :: bool
  errorMessage :: qstring
  addedColumnIndex :: int
  columnName :: qstring
  processedRows :: int

type_synonym TimeConversionResult = CalcResult
type_synonym PressureDropResult = CalcResult

definition declared :: "CalcResult \<Rightarrow> CalcResult" where
  "declared uninit = uninit\<lparr>errorMessage := [], columnName := []\<rparr>"

subsection \<open>Helpers\<close>

definition parseTimeString :: "'d qt \<Rightarrow> qstring \<Rightarrow> int" where
  "parseTimeString L timeStr =
     (let t1 = QTime_fromString L timeStr (qs ''hh:mm:ss'');
          t2 = QTime_fromString L timeStr (qs ''h:mm:ss'');
          t3 = QTime_fromString L timeStr (qs ''hh:mm'')
      in if QTime_isValid t1 then t1
         else if QTime_isValid t2 then t2
         else if QTime_isValid t3 then t3
         else QTime_null)"

definition parseDateString :: "'d qt \<Rightarrow> qstring \<Rightarrow> int" where
  "parseDateString L dateStr =
     (let d1 = QDate_fromString L dateStr (qs ''yyyy-MM-dd'');
          d2 = QDate_fromString L dateStr (qs ''yyyy/MM/dd'')
      in if QDate_isValid d1 then d1
         else if QDate_isValid d2 then d2
         else QDate_null)"

definition combineDateAndTime :: "int \<Rightarrow> int \<Rightarrow> QDateTime" where
  "combineDateAndTime d t = \<lparr>date = d, time = t\<rparr>"

definition convertTimeToUnit :: "'d qt \<Rightarrow> 'd \<Rightarrow> qstring \<Rightarrow> 'd" where
  "convertTimeToUnit L seconds u =
     (if u = qs ''h'' then ddiv L seconds (fromInt L 3600)
      else if u = qs ''min'' then ddiv L seconds (fromInt L 60)
      else seconds)"

text \<open>
  \<open>findPressureColumn\<close>: the first definition typed \<open>Pressure\<close>, else the first column whose
  header contains \<open>U+538B U+529B\<close> or, in any case, \<open>pressure\<close>; \<open>None\<close> is the \<open>-1\<close> of the
  source. The second scan calls \<open>model->columnCount()\<close>.
\<close>

definition findPressureColumn ::
  "'d qt \<Rightarrow> QStandardItemModel option \<Rightarrow> ColumnDefinition list \<Rightarrow> error + nat option" where
  "findPressureColumn L model definitions =
     (case find (\<lambda>i. type (definitions ! i) = Pressure) [0..<length definitions] of
        Some i \<Rightarrow> Inr (Some i)
      | None \<Rightarrow>
          (case model of
             None \<Rightarrow> Inl NullPointer
           | Some m \<Rightarrow>
               Inr (find (\<lambda>i. contains (headerData m i) [0x538B, 0x529B]
                              \<or> containsCI L (headerData m i) (qs ''pressure''))
                         [0..<columnCount m])))"

subsection \<open>Loops over the rows\<close>

text \<open>
  \<open>for (int i = 0; i < n; ++i) body\<close> over a state, stopping where the body has no defined
  result.
\<close>

fun forLoop :: "(nat \<Rightarrow> 's \<Rightarrow> error + 's) \<Rightarrow> nat list \<Rightarrow> 's \<Rightarrow> error + 's" where
  "forLoop body [] s = Inr s"
| "forLoop body (i # is) s =
     (case body i s of Inl e \<Rightarrow> Inl e | Inr s' \<Rightarrow> forLoop body is s')"

subsection \<open>\<open>convertTimeColumn\<close>\<close>

text \<open>
  The first half of the loop body: \<open>val\<close> and \<open>valid\<close> of row \<open>i\<close> as an optional value, and
  the baseline (\<open>baseTime\<close> with \<open>baseSet\<close>) as an optional instant.
\<close>

definition rowValue ::
  "'d qt \<Rightarrow> TimeConversionConfig \<Rightarrow> QStandardItemModel \<Rightarrow> QDateTime option \<Rightarrow> nat
     \<Rightarrow> error + ('d option \<times> QDateTime option)" where
  "rowValue L config model baseTime i =
     (if useDateAndTime config then
        (case item model i (dateColumnIndex config) of
           None \<Rightarrow> Inl NullPointer
         | Some dStr \<Rightarrow>
             (case item model i (timeColumnIndex config) of
                None \<Rightarrow> Inl NullPointer
              | Some tStr \<Rightarrow>
                  (let d = parseDateString L dStr; t = parseTimeString L tStr
                   in if QDate_isValid d \<and> QTime_isValid t then
                        (let dt = combineDateAndTime d t;
                             base = (case baseTime of None \<Rightarrow> dt | Some b \<Rightarrow> b);
                             seconds = fromInt L (secsTo base dt)
                         in Inr (Some (convertTimeToUnit L seconds (outputUnit config)),
                                 Some base))
                      else Inr (None, baseTime))))
      else
        (case item model i (sourceTimeColumnIndex config) of
           None \<Rightarrow> Inl NullPointer
         | Some tStr \<Rightarrow>
             (let t = parseTimeString L tStr
              in if QTime_isValid t then
                   (let base = (case baseTime of
                                  None \<Rightarrow> \<lparr>date = currentDate L, time = t\<rparr>
                                | Some b \<Rightarrow> b);
                        dt0 = \<lparr>date = currentDate L, time = t\<rparr>;
                        dt = (if earlier dt0 base then addDays 1 dt0 else dt0);
                        seconds = fromInt L (secsTo base dt)
                    in Inr (Some (convertTimeToUnit L seconds (outputUnit config)),
                            Some base))
                 else Inr (None, baseTime))))"

definition timeRow ::
  "'d qt \<Rightarrow> TimeConversionConfig \<Rightarrow> nat \<Rightarrow> nat
     \<Rightarrow> QStandardItemModel \<times> QDateTime option \<times> int
     \<Rightarrow> error + (QStandardItemModel \<times> QDateTime option \<times> int)" where
  "timeRow L config newColIdx i st =
     (case st of (model, baseTime, processed) \<Rightarrow>
        (case rowValue L config model baseTime i of
           Inl e \<Rightarrow> Inl e
         | Inr (Some val, baseTime') \<Rightarrow>
             Inr (setItem i newColIdx (number_f3 L val) model, baseTime', processed + 1)
         | Inr (None, baseTime') \<Rightarrow>
             Inr (setItem i newColIdx [] model, baseTime', processed)))"

definition convertTimeColumn ::
  "'d qt \<Rightarrow> CalcResult \<Rightarrow> QStandardItemModel option \<Rightarrow> ColumnDefinition list
     \<Rightarrow> TimeConversionConfig
     \<Rightarrow> error + (TimeConversionResult \<times> QStandardItemModel option \<times> ColumnDefinition list)"
  where
  "convertTimeColumn L uninit model definitions config =
     (let result = (declared uninit)\<lparr>success := False, processedRows := 0\<rparr>
      in case model of
           None \<Rightarrow>
             Inr (result\<lparr>errorMessage := [0x6570, 0x636E, 0x6A21, 0x578B, 0x4E3A, 0x7A7A]\<rparr>,
                  model, definitions)
         | Some m \<Rightarrow>
             if rowCount m = 0
             then Inr (result\<lparr>errorMessage := [0x6CA1, 0x6709, 0x6570, 0x636E]\<rparr>,
                       model, definitions)
             else
               (let newColIdx = columnCount m;
                    m1 = insertColumn newColIdx m;
                    newDef = ColumnDefinition0
                      \<lparr>name := newColumnName config @ [0x5C] @ outputUnit config,
                       type := Time, unit := outputUnit config, decimalPlaces := 3\<rparr>;
                    m2 = setHorizontalHeaderItem newColIdx (name newDef) m1
                in case forLoop (timeRow L config newColIdx) [0..<rowCount m]
                          (m2, None, processedRows result) of
                     Inl e \<Rightarrow> Inl e
                   | Inr (m3, baseTime, processed) \<Rightarrow>
                       Inr (result\<lparr>processedRows := processed, success := True,
                                   addedColumnIndex := int newColIdx,
                                   columnName := name newDef\<rparr>,
                            Some m3, definitions @ [newDef])))"

subsection \<open>\<open>calculatePressureDrop\<close>\<close>

definition dropRow ::
  "'d qt \<Rightarrow> nat \<Rightarrow> nat \<Rightarrow> nat
     \<Rightarrow> QStandardItemModel \<times> 'd option \<times> int
     \<Rightarrow> error + (QStandardItemModel \<times> 'd option \<times> int)" where
  "dropRow L pIdx newColIdx i st =
     (case st of (model, initialPressure, processed) \<Rightarrow>
        (case item model i (int pIdx) of
           None \<Rightarrow> Inl NullPointer
         | Some pText \<Rightarrow>
             (case toDouble L pText of
                Some p \<Rightarrow>
                  (let init = (case initialPressure of None \<Rightarrow> p | Some b \<Rightarrow> b);
                       drop = dsub L init p
                   in Inr (setItem i newColIdx (number_f3 L drop) model, Some init,
                           processed + 1))
              | None \<Rightarrow> Inr (setItem i newColIdx [] model, initialPressure, processed))))"

definition calculatePressureDrop ::
  "'d qt \<Rightarrow> CalcResult \<Rightarrow> QStandardItemModel option \<Rightarrow> ColumnDefinition list
     \<Rightarrow> error + (PressureDropResult \<times> QStandardItemModel option \<times> ColumnDefinition list)"
  where
  "calculatePressureDrop L uninit model definitions =
     (let result = (declared uninit)\<lparr>success := False\<rparr>
      in case findPressureColumn L model definitions of
           Inl e \<Rightarrow> Inl e
         | Inr None \<Rightarrow>
             Inr (result\<lparr>errorMessage :=
                    [0x672A, 0x627E, 0x5230, 0x538B, 0x529B, 0x5217, 0xFF0C, 0x8BF7,
                     0x5148, 0x5B9A, 0x4E49, 0x5217, 0x5C5E, 0x6027, 0x3002]\<rparr>,
                  model, definitions)
         | Inr (Some pIdx) \<Rightarrow>
             if length definitions \<le> pIdx then Inl IndexOutOfRange
             else
               (let u = unit (definitions ! pIdx)
                in case model of
                     None \<Rightarrow> Inl NullPointer
                   | Some m \<Rightarrow>
                       (let newColIdx = columnCount m;
                            m1 = insertColumn newColIdx m;
                            newDef = ColumnDefinition0
                              \<lparr>name := [0x538B, 0x964D, 0x5C] @ u,
                               type := PressureDrop, unit := u, decimalPlaces := 3\<rparr>;
                            m2 = setHorizontalHeaderItem newColIdx (name newDef) m1
                        in case forLoop (dropRow L pIdx newColIdx) [0..<rowCount m2]
                                  (m2, None, processedRows result) of
                             Inl e \<Rightarrow> Inl e
                           | Inr (m3, initialPressure, processed) \<Rightarrow>
                               Inr (result\<lparr>processedRows := processed, success := True,
                                           addedColumnIndex := int newColIdx,
                                           columnName := name newDef\<rparr>,
                                    Some m3, definitions @ [newDef]))))"

section \<open>A library instance for examples\<close>

text \<open>
  The examples of this development run the model on a small stand-in for the library. Its
  numbers are integers counting thousandths, so they are exact on decimals of at most three
  places, as the doubles are on the examples' values; its parsers accept the plain forms
  \<open>[-]digits[.digits]\<close>, \<open>yyyy-MM-dd\<close>, \<open>yyyy/MM/dd\<close>, \<open>hh:mm:ss\<close>, \<open>h:mm:ss\<close> and
  \<open>hh:mm\<close>; its case folding is that of ASCII letters. The general theorems hold for
  every library, this one included.
\<close>

definition digitValue :: "qchar \<Rightarrow> int option" where
  "digitValue c = (if 0x30 \<le> c \<and> c \<le> 0x39 then Some (uint c - 48) else None)"

definition digits :: "qstring \<Rightarrow> int option" where
  "digits s = (if s = [] then None
               else map_option (foldl (\<lambda>n d. 10 * n + d) 0) (those (map digitValue s)))"

fun showInt :: "nat \<Rightarrow> int \<Rightarrow> qstring" where
  "showInt 0 v = []"
| "showInt (Suc k) v =
     (if v < 10 then [of_int (48 + v)] else showInt k (v div 10) @ [of_int (48 + v mod 10)])"

definition unsignedMilli :: "qstring \<Rightarrow> int option" where
  "unsignedMilli s =
     (case dropWhile (\<lambda>c. c \<noteq> 0x2E) s of
        [] \<Rightarrow> map_option (\<lambda>n. n * 1000) (digits s)
      | dot # fs \<Rightarrow>
          (if length fs \<le> 3 then
             (case (digits (takeWhile (\<lambda>c. c \<noteq> 0x2E) s),
                    digits (fs @ replicate (3 - length fs) 0x30)) of
                (Some a, Some b) \<Rightarrow> Some (a * 1000 + b)
              | _ \<Rightarrow> None)
           else None))"

definition ref_toDouble :: "qstring \<Rightarrow> int option" where
  "ref_toDouble s =
     (case s of
        [] \<Rightarrow> None
      | c # cs \<Rightarrow> if c = 0x2D then map_option uminus (unsignedMilli cs) else unsignedMilli s)"

definition ref_number_f3 :: "int \<Rightarrow> qstring" where
  "ref_number_f3 v =
     (let n = \<bar>v\<bar>
      in (if v < 0 then [0x2D] else [])
         @ showInt 20 (n div 1000)
         @ [0x2E, of_int (48 + n div 100 mod 10), of_int (48 + n div 10 mod 10),
            of_int (48 + n mod 10)])"

definition ref_ddiv :: "int \<Rightarrow> int \<Rightarrow> int" where
  "ref_ddiv a b = (2000 * a + b) div (2 * b)"

definition daysInMonth :: "int \<Rightarrow> int \<Rightarrow> int" where
  "daysInMonth y mo =
     (if mo = 2 then (if y mod 4 = 0 \<and> (y mod 100 \<noteq> 0 \<or> y mod 400 = 0) then 29 else 28)
      else if mo = 4 \<or> mo = 6 \<or> mo = 9 \<or> mo = 11 then 30 else 31)"

definition julianDay :: "int \<Rightarrow> int \<Rightarrow> int \<Rightarrow> int" where
  "julianDay y mo d =
     (let a = (14 - mo) div 12; y' = y + 4800 - a; m' = mo + 12 * a - 3
      in d + (153 * m' + 2) div 5 + 365 * y' + y' div 4 - y' div 100 + y' div 400 - 32045)"

definition ref_date :: "qchar \<Rightarrow> qstring \<Rightarrow> int" where
  "ref_date sep s =
     (if length s = 10 \<and> s ! 4 = sep \<and> s ! 7 = sep then
        (case (digits (take 4 s), digits (take 2 (drop 5 s)), digits (drop 8 s)) of
           (Some y, Some mo, Some d) \<Rightarrow>
             if 1 \<le> y \<and> 1 \<le> mo \<and> mo \<le> 12 \<and> 1 \<le> d \<and> d \<le> daysInMonth y mo
             then julianDay y mo d else QDate_null
         | _ \<Rightarrow> QDate_null)
      else QDate_null)"

definition ref_QDate_fromString :: "qstring \<Rightarrow> qstring \<Rightarrow> int" where
  "ref_QDate_fromString s format =
     (if format = qs ''yyyy-MM-dd'' then ref_date 0x2D s
      else if format = qs ''yyyy/MM/dd'' then ref_date 0x2F s
      else QDate_null)"

definition ref_time :: "qstring list \<Rightarrow> int" where
  "ref_time parts =
     (case those (map digits parts) of
        Some [h, mi] \<Rightarrow> if h < 24 \<and> mi < 60 then (h * 60 + mi) * 60000 else QTime_null
      | Some [h, mi, s] \<Rightarrow>
          if h < 24 \<and> mi < 60 \<and> s < 60 then ((h * 60 + mi) * 60 + s) * 1000 else QTime_null
      | _ \<Rightarrow> QTime_null)"

definition ref_QTime_fromString :: "qstring \<Rightarrow> qstring \<Rightarrow> int" where
  "ref_QTime_fromString s format =
     (if format = qs ''hh:mm:ss'' \<and> length s = 8 \<and> s ! 2 = 0x3A \<and> s ! 5 = 0x3A
        then ref_time [take 2 s, take 2 (drop 3 s), drop 6 s]
      else if format = qs ''h:mm:ss'' \<and> length s = 7 \<and> s ! 1 = 0x3A \<and> s ! 4 = 0x3A
        then ref_time [take 1 s, take 2 (drop 2 s), drop 5 s]
      else if format = qs ''hh:mm'' \<and> length s = 5 \<and> s ! 2 = 0x3A
        then ref_time [take 2 s, drop 3 s]
      else QTime_null)"

definition ref_foldCase :: "qchar \<Rightarrow> qchar" where
  "ref_foldCase c = (if 0x41 \<le> c \<and> c \<le> 0x5A then c + 0x20 else c)"

definition refQt :: "int qt" where
  "refQt = \<lparr>toDouble = ref_toDouble, number_f3 = ref_number_f3,
            dsub = (\<lambda>a b. a - b), ddiv = ref_ddiv, fromInt = (\<lambda>n. n * 1000),
            QDate_fromString = ref_QDate_fromString, QTime_fromString = ref_QTime_fromString,
            currentDate = 2461344, foldCase = ref_foldCase\<rparr>"

definition uninit0 :: CalcResult where
  "uninit0 = \<lparr>success = True, errorMessage = [], addedColumnIndex = - 1, columnName = [],
              processedRows = 7\<rparr>"

definition grid3 :: QStandardItemModel where
  "grid3 = \<lparr>columnCount = 1, columnHeaderItems = [Some (qs ''P'')],
            children = [[Some (qs ''100'')], [Some (qs ''90'')], [Some (qs ''80'')]]\<rparr>"

definition defsP :: "ColumnDefinition list" where
  "defsP = [ColumnDefinition0\<lparr>name := qs ''P'', type := Pressure, unit := qs ''MPa''\<rparr>]"

definition grid3_drop :: QStandardItemModel where
  "grid3_drop = \<lparr>columnCount = 2,
      columnHeaderItems = [Some (qs ''P''), Some ([0x538B, 0x964D, 0x5C] @ qs ''MPa'')],
      children = [[Some (qs ''100''), Some (qs ''0.000'')],
                  [Some (qs ''90''), Some (qs ''10.000'')],
                  [Some (qs ''80''), Some (qs ''20.000'')]]\<rparr>"

definition defsP_drop :: "ColumnDefinition list" where
  "defsP_drop = defsP @ [\<lparr>name = [0x538B, 0x964D, 0x5C] @ qs ''MPa'', type = PressureDrop,
                           unit = qs ''MPa'', isRequired = False, decimalPlaces = 3\<rparr>]"

definition res3 :: CalcResult where
  "res3 = \<lparr>success = True, errorMessage = [], addedColumnIndex = 1,
           columnName = [0x538B, 0x964D, 0x5C] @ qs ''MPa'', processedRows = 10\<rparr>"

definition gridNoRows :: QStandardItemModel where
  "gridNoRows = \<lparr>columnCount = 1, columnHeaderItems = [Some (qs ''P'')], children = []\<rparr>"

definition gridPressureHeader :: QStandardItemModel where
  "gridPressureHeader = \<lparr>columnCount = 2,
      columnHeaderItems = [Some (qs ''t''), Some (qs ''Pressure'')],
      children = [[Some (qs ''0''), Some (qs ''100'')]]\<rparr>"

definition gridNoPressure :: QStandardItemModel where
  "gridNoPressure = \<lparr>columnCount = 1, columnHeaderItems = [Some (qs ''t'')],
      children = [[Some (qs ''0'')]]\<rparr>"

definition grid2 :: QStandardItemModel where
  "grid2 = \<lparr>columnCount = 1, columnHeaderItems = [Some (qs ''P'')],
            children = [[Some (qs ''100'')], [Some (qs ''90'')]]\<rparr>"

definition configDT :: TimeConversionConfig where
  "configDT = \<lparr>dateColumnIndex = 0, timeColumnIndex = 1, sourceTimeColumnIndex = 0,
                outputUnit = qs ''h'', newColumnName = qs ''t'', useDateAndTime = True\<rparr>"

definition configT :: TimeConversionConfig where
  "configT = \<lparr>dateColumnIndex = 0, timeColumnIndex = 0, sourceTimeColumnIndex = 0,
               outputUnit = qs ''h'', newColumnName = qs ''t'', useDateAndTime = False\<rparr>"

definition gridDT :: QStandardItemModel where
  "gridDT = \<lparr>columnCount = 2, columnHeaderItems = [Some (qs ''Date''), Some (qs ''Clock'')],
      children = [[Some (qs ''2025-01-01''), Some (qs ''10:00:00'')],
                  [Some (qs ''2025-01-01''), Some (qs ''11:00:00'')]]\<rparr>"


definition gridDT_out :: QStandardItemModel where
  "gridDT_out = \<lparr>columnCount = 3,
      columnHeaderItems = [Some (qs ''Date''), Some (qs ''Clock''), Some (qs ''t'' @ [0x5C] @ qs ''h'')],
      children = [[Some (qs ''2025-01-01''), Some (qs ''10:00:00''), Some (qs ''0.000'')],
                  [Some (qs ''2025-01-01''), Some (qs ''11:00:00''), Some (qs ''1.000'')]]\<rparr>"


definition defsT_out :: "ColumnDefinition list" where
  "defsT_out = [\<lparr>name = qs ''t'' @ [0x5C] @ qs ''h'', type = Time, unit = qs ''h'',
                  isRequired = False, decimalPlaces = 3\<rparr>]"

definition resDT :: CalcResult where
  "resDT = \<lparr>success = True, errorMessage = [], addedColumnIndex = 2,
            columnName = qs ''t'' @ [0x5C] @ qs ''h'', processedRows = 2\<rparr>"


definition gridHole :: QStandardItemModel where
  "gridHole = \<lparr>columnCount = 2, columnHeaderItems = [Some (qs ''Clock''), Some (qs ''x'')],
      children = [[Some (qs ''10:00:00''), None]]\<rparr>"

definition configHole :: TimeConversionConfig where
  "configHole = \<lparr>dateColumnIndex = 0, timeColumnIndex = 0, sourceTimeColumnIndex = 1,
                  outputUnit = qs ''h'', newColumnName = qs ''t'', useDateAndTime = False\<rparr>"

definition jsonHeader :: "int json" where
  "jsonHeader = JObject [(qs ''headers'', JArray [JString (qs ''A''), JString (qs ''B'')])]"

definition jsonRows :: "int json list" where
  "jsonRows =
     [JObject [(qs ''row_data'', JArray [JString (qs ''1'')])],
      JObject [(qs ''note'', JString (qs ''x''))],
      JObject [(qs ''row_data'',
                JArray [JString (qs ''1''), JString (qs ''2''), JString (qs ''3'')])]]"

definition gridRagged :: QStandardItemModel where
  "gridRagged =
     \<lparr>columnCount = 3,
      columnHeaderItems = [Some (qs ''A''), Some (qs ''B''), None],
      children = [[Some (qs ''1''), None, None],
                  [Some (qs ''1''), Some (qs ''2''), Some (qs ''3'')]]\<rparr>"

definition defsRagged :: "ColumnDefinition list" where
  "defsRagged =
     [\<lparr>name = qs ''A'', type = Custom, unit = [], isRequired = False, decimalPlaces = 3\<rparr>,
      \<lparr>name = qs ''B'', type = Custom, unit = [], isRequired = False, decimalPlaces = 3\<rparr>]"

text \<open>
  A second stand-in adds to these numbers the two infinities and the not-a-number of IEEE
  arithmetic, for the calls whose result depends on them. Its \<open>toDouble\<close> reads the texts
  \<open>nan\<close>, \<open>inf\<close>, \<open>+inf\<close> and \<open>-inf\<close> as \<open>QString::toDouble\<close> does, its \<open>number\<close> prints
  them as \<open>nan\<close>, \<open>inf\<close> and \<open>-inf\<close> as \<open>QString::number\<close> does, and its differences and
  quotients are those of IEEE 754, the sign of zero apart.
\<close>

datatype ieee = Fin int | PInf | MInf | NaN

fun ieee_sub :: "ieee \<Rightarrow> ieee \<Rightarrow> ieee" where
  "ieee_sub (Fin a) (Fin b) = Fin (a - b)"
| "ieee_sub (Fin a) PInf = MInf"
| "ieee_sub (Fin a) MInf = PInf"
| "ieee_sub PInf (Fin b) = PInf"
| "ieee_sub PInf MInf = PInf"
| "ieee_sub MInf (Fin b) = MInf"
| "ieee_sub MInf PInf = MInf"
| "ieee_sub a b = NaN"

fun ieee_div :: "ieee \<Rightarrow> ieee \<Rightarrow> ieee" where
  "ieee_div (Fin a) (Fin b) =
     (if b = 0 then (if a = 0 then NaN else if 0 < a then PInf else MInf)
      else Fin (ref_ddiv a b))"
| "ieee_div (Fin a) PInf = Fin 0"
| "ieee_div (Fin a) MInf = Fin 0"
| "ieee_div PInf (Fin b) = (if b < 0 then MInf else PInf)"
| "ieee_div MInf (Fin b) = (if b < 0 then PInf else MInf)"
| "ieee_div a b = NaN"

definition ieee_toDouble :: "qstring \<Rightarrow> ieee option" where
  "ieee_toDouble s =
     (if s = qs ''nan'' then Some NaN
      else if s = qs ''inf'' \<or> s = qs ''+inf'' then Some PInf
      else if s = qs ''-inf'' then Some MInf
      else map_option Fin (ref_toDouble s))"

fun ieee_number_f3 :: "ieee \<Rightarrow> qstring" where
  "ieee_number_f3 (Fin v) = ref_number_f3 v"
| "ieee_number_f3 PInf = qs ''inf''"
| "ieee_number_f3 MInf = qs ''-inf''"
| "ieee_number_f3 NaN = qs ''nan''"

fun isFinite :: "ieee \<Rightarrow> bool" where
  "isFinite (Fin v) = True"
| "isFinite x = False"

definition ieeeQt :: "ieee qt" where
  "ieeeQt = \<lparr>toDouble = ieee_toDouble, number_f3 = ieee_number_f3,
             dsub = ieee_sub, ddiv = ieee_div, fromInt = (\<lambda>n. Fin (n * 1000)),
             QDate_fromString = ref_QDate_fromString, QTime_fromString = ref_QTime_fromString,
             currentDate = 2461344, foldCase = ref_foldCase\<rparr>"

definition grid4 :: QStandardItemModel where
  "grid4 = \<lparr>columnCount = 1, columnHeaderItems = [Some (qs ''P'')],
            children = [[Some (qs ''abc'')], [Some (qs ''100'')], [Some (qs ''90'')],
                        [Some (qs ''80'')]]\<rparr>"

definition gridInf :: QStandardItemModel where
  "gridInf = \<lparr>columnCount = 1, columnHeaderItems = [Some (qs ''P'')],
              children = [[Some (qs ''inf'')], [Some (qs ''90'')]]\<rparr>"

section \<open>Notions used in the proofs\<close>

definition padRow :: "nat \<Rightarrow> qstring list \<Rightarrow> qstring option list" where
  "padRow n vs = map Some vs @ replicate (n - length vs) None"

definition rowData :: "'d json \<Rightarrow> qstring list" where
  "rowData v = map toString (toArray (member (toObject v) (qs ''row_data'')))"

definition hasRowData :: "'d json \<Rightarrow> bool" where
  "hasRowData v = containsKey (toObject v) (qs ''row_data'')"

definition gbody ::
  "(QStandardItemModel \<Rightarrow> nat \<Rightarrow> 'x option) \<Rightarrow> ('x \<Rightarrow> 'b \<Rightarrow> qstring \<times> 'b \<times> bool) \<Rightarrow> nat \<Rightarrow> nat
    \<Rightarrow> QStandardItemModel \<times> 'b \<times> int \<Rightarrow> error + (QStandardItemModel \<times> 'b \<times> int)" where
  "gbody rd step c i st =
     (case st of (m, b, n) \<Rightarrow>
        (case rd m i of
           None \<Rightarrow> Inl NullPointer
         | Some x \<Rightarrow>
             (case step x b of (cell, b', k) \<Rightarrow>
                Inr (setItem i c cell m, b', if k then n + 1 else n))))"

fun pureRun :: "('x \<Rightarrow> 'b \<Rightarrow> qstring \<times> 'b \<times> bool) \<Rightarrow> 'x list \<Rightarrow> 'b \<Rightarrow> qstring list \<times> 'b \<times> nat" where
  "pureRun step [] b = ([], b, 0)"
| "pureRun step (x # xs) b =
     (case step x b of (cell, b', k) \<Rightarrow>
        (case pureRun step xs b' of (cells, b'', cnt) \<Rightarrow>
           (cell # cells, b'', (if k then 1 else 0) + cnt)))"

definition stable :: "(QStandardItemModel \<Rightarrow> nat \<Rightarrow> 'x option) \<Rightarrow> nat \<Rightarrow> bool" where
  "stable rd c \<longleftrightarrow>
     (\<forall>m1 m2 i. (\<forall>c'. c' \<noteq> int c \<longrightarrow> item m1 i c' = item m2 i c') \<longrightarrow> rd m1 i = rd m2 i)"

definition bstep ::
  "('x \<Rightarrow> 'v option) \<Rightarrow> ('v \<Rightarrow> 'b) \<Rightarrow> ('b \<Rightarrow> 'v \<Rightarrow> qstring) \<Rightarrow> 'x \<Rightarrow> 'b option
     \<Rightarrow> qstring \<times> 'b option \<times> bool" where
  "bstep parse mk out x base =
     (case parse x of
        None \<Rightarrow> ([], base, False)
      | Some v \<Rightarrow> (let b = (case base of None \<Rightarrow> mk v | Some b \<Rightarrow> b) in (out b v, Some b, True)))"

fun firstSome :: "('x \<Rightarrow> 'v option) \<Rightarrow> 'x list \<Rightarrow> 'v option" where
  "firstSome f [] = None"
| "firstSome f (x # xs) = (case f x of Some v \<Rightarrow> Some v | None \<Rightarrow> firstSome f xs)"

definition baseOf :: "('x \<Rightarrow> 'v option) \<Rightarrow> ('v \<Rightarrow> 'b) \<Rightarrow> 'b option \<Rightarrow> 'x list \<Rightarrow> 'b option" where
  "baseOf parse mk base xs =
     (case base of Some b \<Rightarrow> Some b | None \<Rightarrow> map_option mk (firstSome parse xs))"

definition withColumn :: "qstring \<Rightarrow> QStandardItemModel \<Rightarrow> QStandardItemModel" where
  "withColumn nm m = setHorizontalHeaderItem (columnCount m) nm (insertColumn (columnCount m) m)"

definition pdDef :: "qstring \<Rightarrow> ColumnDefinition" where
  "pdDef u = ColumnDefinition0\<lparr>name := [0x538B, 0x964D, 0x5C] @ u,
                               type := PressureDrop, unit := u, decimalPlaces := 3\<rparr>"

definition noPressureMsg :: qstring where
  "noPressureMsg = [0x672A, 0x627E, 0x5230, 0x538B, 0x529B, 0x5217, 0xFF0C, 0x8BF7,
                     0x5148, 0x5B9A, 0x4E49, 0x5217, 0x5C5E, 0x6027, 0x3002]"

definition headerMatches :: "'d qt \<Rightarrow> QStandardItemModel \<Rightarrow> nat \<Rightarrow> bool" where
  "headerMatches L m i \<longleftrightarrow>
     contains (headerData m i) [0x538B, 0x529B] \<or> containsCI L (headerData m i) (qs ''pressure'')"

definition tcDef :: "TimeConversionConfig \<Rightarrow> ColumnDefinition" where
  "tcDef config = ColumnDefinition0
     \<lparr>name := newColumnName config @ [0x5C] @ outputUnit config,
      type := Time, unit := outputUnit config, decimalPlaces := 3\<rparr>"

definition dtRead :: "TimeConversionConfig \<Rightarrow> QStandardItemModel \<Rightarrow> nat \<Rightarrow> (qstring \<times> qstring) option" where
  "dtRead config m i =
     (case item m i (dateColumnIndex config) of
        None \<Rightarrow> None
      | Some dStr \<Rightarrow>
          (case item m i (timeColumnIndex config) of
             None \<Rightarrow> None
           | Some tStr \<Rightarrow> Some (dStr, tStr)))"

definition dtParse :: "'d qt \<Rightarrow> qstring \<times> qstring \<Rightarrow> QDateTime option" where
  "dtParse L x =
     (if QDate_isValid (parseDateString L (fst x)) \<and> QTime_isValid (parseTimeString L (snd x))
      then Some (combineDateAndTime (parseDateString L (fst x)) (parseTimeString L (snd x)))
      else None)"

definition dtOut :: "'d qt \<Rightarrow> qstring \<Rightarrow> QDateTime \<Rightarrow> QDateTime \<Rightarrow> qstring" where
  "dtOut L u base dt = number_f3 L (convertTimeToUnit L (fromInt L (secsTo base dt)) u)"

definition toParse :: "'d qt \<Rightarrow> qstring \<Rightarrow> int option" where
  "toParse L tStr = (if QTime_isValid (parseTimeString L tStr) then Some (parseTimeString L tStr) else None)"

definition today :: "'d qt \<Rightarrow> int \<Rightarrow> QDateTime" where
  "today L t = \<lparr>date = currentDate L, time = t\<rparr>"

definition rolled :: "'d qt \<Rightarrow> QDateTime \<Rightarrow> int \<Rightarrow> QDateTime" where
  "rolled L base t = (if earlier (today L t) base then addDays 1 (today L t) else today L t)"

definition toOut :: "'d qt \<Rightarrow> qstring \<Rightarrow> QDateTime \<Rightarrow> int \<Rightarrow> qstring" where
  "toOut L u base t = number_f3 L (convertTimeToUnit L (fromInt L (secsTo base (rolled L base t))) u)"

definition emptyMsg :: qstring where
  "emptyMsg = [0x6570, 0x636E, 0x6A21, 0x578B, 0x4E3A, 0x7A7A]"

definition noDataMsg :: qstring where
  "noDataMsg = [0x6CA1, 0x6709, 0x6570, 0x636E]"

definition headerLabelsOf :: "'d json \<Rightarrow> qstring list" where
  "headerLabelsOf h =
     (if containsKey (toObject h) (qs ''headers'')
      then map toString (toArray (member (toObject h) (qs ''headers''))) else [])"

definition rowObj :: "qstring list \<Rightarrow> 'd json" where
  "rowObj row = JObject [(qs ''row_data'', JArray (map JString row))]"

definition headerObj :: "qstring list \<Rightarrow> 'd json" where
  "headerObj headers = JObject [(qs ''headers'', JArray (map JString headers))]"

definition cellTexts :: "QStandardItemModel \<Rightarrow> qstring list list" where
  "cellTexts m
   = map (\<lambda>i. map (\<lambda>j. the (item m i (int j))) [0..<columnCount m]) [0..<rowCount m]"

definition allItems :: "QStandardItemModel \<Rightarrow> bool" where
  "allItems m \<longleftrightarrow> (\<forall>i<rowCount m. \<forall>j<columnCount m. item m i (int j) \<noteq> None)"

section \<open>Properties\<close>

lemma resize_grow: "length xs \<le> n \<Longrightarrow> resize n xs = xs @ replicate (n - length xs) None"
  by (simp add: resize_def)

lemma resize_same [simp]: "length xs = n \<Longrightarrow> resize n xs = xs"
  by (simp add: resize_def)

lemma length_resize [simp]: "length (resize n xs) = n"
  by (simp add: resize_def)

lemma resize_resize: "length xs \<le> k \<Longrightarrow> k \<le> n \<Longrightarrow> resize n (resize k xs) = resize n xs"
  by (simp add: resize_grow replicate_add [symmetric])

lemma resize_padRow: "length vs \<le> k \<Longrightarrow> k \<le> n \<Longrightarrow> resize n (padRow k vs) = padRow n vs"
  by (simp add: resize_grow padRow_def replicate_add [symmetric])

lemma wf_setColumnCount [simp]: "well_formed (setColumnCount n m)"
  by (simp add: well_formed_def setColumnCount_def list_all_iff)

lemma wf_clear [simp]: "well_formed clear"
  by (simp add: well_formed_def clear_def)

lemma wf_appendRow: "well_formed m \<Longrightarrow> well_formed (appendRow vs m)"
  by (auto simp: well_formed_def appendRow_def Let_def setColumnCount_def list_all_iff)

lemma columnCount_appendRow: "columnCount (appendRow vs m) = max (columnCount m) (length vs)"
  by (auto simp: appendRow_def Let_def setColumnCount_def)

lemma children_appendRow:
  "well_formed m \<Longrightarrow> children (appendRow vs m) =
     map (resize (columnCount (appendRow vs m))) (children m)
     @ [padRow (columnCount (appendRow vs m)) vs]"
  by (auto simp: appendRow_def Let_def setColumnCount_def padRow_def well_formed_def list_all_iff
      intro!: map_idI [symmetric])

lemma hdr_appendRow:
  "well_formed m \<Longrightarrow> columnHeaderItems (appendRow vs m) =
     resize (columnCount (appendRow vs m)) (columnHeaderItems m)"
  by (auto simp: appendRow_def Let_def setColumnCount_def well_formed_def)

lemma deserializeRow_has: "hasRowData v \<Longrightarrow> deserializeRow v m = appendRow (rowData v) m"
  by (simp add: deserializeRow_def hasRowData_def rowData_def Let_def)

lemma deserializeRow_hasnt: "\<not> hasRowData v \<Longrightarrow> deserializeRow v m = m"
  by (simp add: deserializeRow_def hasRowData_def rowData_def Let_def)

lemma wf_deserializeRow: "well_formed m \<Longrightarrow> well_formed (deserializeRow v m)"
  by (cases "hasRowData v") (simp_all add: deserializeRow_has deserializeRow_hasnt wf_appendRow)

lemma wf_fold_deserializeRow: "well_formed m \<Longrightarrow> well_formed (fold deserializeRow vs m)"
  by (induction vs arbitrary: m) (simp_all add: wf_deserializeRow)

lemma columnCount_deserializeRow:
  "columnCount (deserializeRow v m)
   = (if hasRowData v then max (columnCount m) (length (rowData v)) else columnCount m)"
  by (simp add: deserializeRow_has deserializeRow_hasnt columnCount_appendRow)

lemma columnCount_fold_deserializeRow:
  "columnCount (fold deserializeRow vs m)
   = fold max (map (length \<circ> rowData) (filter hasRowData vs)) (columnCount m)"
  by (induction vs arbitrary: m) (simp_all add: columnCount_deserializeRow max.commute)

lemma columnCount_fold_mono: "columnCount m \<le> columnCount (fold deserializeRow vs m)"
proof (induction vs arbitrary: m)
  case Nil
  show ?case by simp
next
  case (Cons v vs)
  have "columnCount m \<le> columnCount (deserializeRow v m)"
    by (simp add: columnCount_deserializeRow)
  also have "\<dots> \<le> columnCount (fold deserializeRow vs (deserializeRow v m))"
    by (rule Cons.IH)
  finally show ?case by simp
qed

lemma fold_deserializeRow:
  "well_formed m \<Longrightarrow>
   columnHeaderItems (fold deserializeRow vs m)
       = resize (columnCount (fold deserializeRow vs m)) (columnHeaderItems m)
   \<and> children (fold deserializeRow vs m)
       = map (resize (columnCount (fold deserializeRow vs m))) (children m)
         @ map (\<lambda>v. padRow (columnCount (fold deserializeRow vs m)) (rowData v))
               (filter hasRowData vs)"
proof (induction vs arbitrary: m)
  case Nil
  then show ?case
    by (auto simp: well_formed_def list_all_iff intro!: map_idI [symmetric])
next
  case (Cons v vs)
  show ?case
  proof (cases "hasRowData v")
    case False
    have e: "fold deserializeRow (v # vs) m = fold deserializeRow vs m"
      using False by (simp add: deserializeRow_hasnt)
    have f: "filter hasRowData (v # vs) = filter hasRowData vs"
      using False by simp
    show ?thesis unfolding e f by (rule Cons.IH [OF Cons.prems])
  next
    case True
    let ?m1 = "appendRow (rowData v) m"
    let ?C = "columnCount (fold deserializeRow vs ?m1)"
    have wf1: "well_formed ?m1" using Cons.prems by (rule wf_appendRow)
    note IH = Cons.IH [OF wf1]
    have le: "columnCount ?m1 \<le> ?C" by (rule columnCount_fold_mono)
    have len: "\<forall>row \<in> set (children m). length row = columnCount m"
      using Cons.prems by (simp add: well_formed_def list_all_iff)
    have c1: "columnCount m \<le> columnCount ?m1" "length (rowData v) \<le> columnCount ?m1"
      by (simp_all add: columnCount_appendRow)
    have rows: "map (resize ?C) (children ?m1)
          = map (resize ?C) (children m) @ [padRow ?C (rowData v)]"
      using len c1 le
      by (auto simp: children_appendRow [OF Cons.prems] resize_resize resize_padRow)
    have hdr: "resize ?C (columnHeaderItems ?m1) = resize ?C (columnHeaderItems m)"
      using Cons.prems c1 le
      by (simp add: hdr_appendRow resize_resize well_formed_def)
    have e: "fold deserializeRow (v # vs) m = fold deserializeRow vs ?m1"
      using True by (simp add: deserializeRow_has)
    have f: "filter hasRowData (v # vs) = v # filter hasRowData vs"
      using True by simp
    have "columnHeaderItems (fold deserializeRow vs ?m1) = resize ?C (columnHeaderItems m)"
      using IH hdr by simp
    moreover have "children (fold deserializeRow vs ?m1)
       = map (resize ?C) (children m)
         @ map (\<lambda>v. padRow ?C (rowData v)) (v # filter hasRowData vs)"
      using IH rows by simp
    ultimately show ?thesis unfolding e f by simp
  qed
qed

lemma rowCount_insertColumn [simp]: "rowCount (insertColumn c m) = rowCount m"
  by (simp add: insertColumn_def rowCount_def)

lemma columnCount_insertColumn [simp]:
  "columnCount (insertColumn (columnCount m) m) = columnCount m + 1"
  by (simp add: insertColumn_def)

lemma wf_insertColumn [simp]:
  "well_formed m \<Longrightarrow> well_formed (insertColumn (columnCount m) m)"
  by (simp add: insertColumn_def well_formed_def list_all_iff)

lemma item_insertColumn:
  "well_formed m \<Longrightarrow>
   item (insertColumn (columnCount m) m) r c = (if c = int (columnCount m) then None else item m r c)"
  by (auto simp: insertColumn_def well_formed_def list_all_iff item_def rowCount_def nth_append)

lemma hdr_insertColumn [simp]:
  "well_formed m \<Longrightarrow>
   columnHeaderItems (insertColumn (columnCount m) m) = columnHeaderItems m @ [None]"
  by (simp add: insertColumn_def well_formed_def)

lemma setHorizontalHeaderItem_inrange:
  "c < columnCount m \<Longrightarrow>
   setHorizontalHeaderItem c s m = m\<lparr>columnHeaderItems := (columnHeaderItems m)[c := Some s]\<rparr>"
  by (simp add: setHorizontalHeaderItem_def)

lemma setItem_inrange:
  "r < rowCount m \<Longrightarrow> c < columnCount m \<Longrightarrow>
   setItem r c s m = m\<lparr>children := (children m)[r := (children m ! r)[c := Some s]]\<rparr>"
  by (simp add: setItem_def)

lemma wf_setItem:
  "well_formed m \<Longrightarrow> r < rowCount m \<Longrightarrow> c < columnCount m \<Longrightarrow> well_formed (setItem r c s m)"
  by (auto simp: setItem_inrange well_formed_def list_all_iff rowCount_def dest!: set_update_subset_insert [THEN subsetD])

lemma counts_setItem [simp]:
  "r < rowCount m \<Longrightarrow> c < columnCount m \<Longrightarrow> rowCount (setItem r c s m) = rowCount m"
  "r < rowCount m \<Longrightarrow> c < columnCount m \<Longrightarrow> columnCount (setItem r c s m) = columnCount m"
  "r < rowCount m \<Longrightarrow> c < columnCount m \<Longrightarrow> columnHeaderItems (setItem r c s m) = columnHeaderItems m"
  by (simp_all add: setItem_inrange rowCount_def)

lemma item_setItem:
  "well_formed m \<Longrightarrow> r < rowCount m \<Longrightarrow> c < columnCount m \<Longrightarrow>
   item (setItem r c s m) r' c' = (if r' = r \<and> c' = int c then Some s else item m r' c')"
  by (auto simp: setItem_inrange item_def rowCount_def well_formed_def list_all_iff nth_list_update)

lemma gbody_Some:
  "rd m i = Some x \<Longrightarrow> step x b = (cell, b1, k) \<Longrightarrow>
   gbody rd step c i (m, b, n) = Inr (setItem i c cell m, b1, if k then n + 1 else n)"
  by (simp add: gbody_def)

lemma gbody_None: "rd m i = None \<Longrightarrow> gbody rd step c i (m, b, n) = Inl NullPointer"
  by (simp add: gbody_def)

lemma gloop:
  "forLoop (gbody rd step c) is (m, b, n) = Inr (m', b', n') \<Longrightarrow>
   well_formed m \<Longrightarrow> c < columnCount m \<Longrightarrow> \<forall>i \<in> set is. i < rowCount m \<Longrightarrow> distinct is \<Longrightarrow>
   stable rd c \<Longrightarrow>
   well_formed m' \<and> rowCount m' = rowCount m \<and> columnCount m' = columnCount m
   \<and> columnHeaderItems m' = columnHeaderItems m
   \<and> (\<forall>r c'. c' \<noteq> int c \<longrightarrow> item m' r c' = item m r c')
   \<and> (\<forall>r. r \<notin> set is \<longrightarrow> item m' r (int c) = item m r (int c))
   \<and> (\<forall>i \<in> set is. rd m i \<noteq> None)
   \<and> (case pureRun step (map (\<lambda>i. the (rd m i)) is) b of
         (cells, bf, cnt) \<Rightarrow>
           b' = bf \<and> n' = n + int cnt \<and> map (\<lambda>i. item m' i (int c)) is = map Some cells)"
proof (induction "is" arbitrary: m b n)
  case Nil
  then show ?case by simp
next
  case (Cons i "is")
  from Cons.prems(1) obtain x where rx: "rd m i = Some x"
    by (cases "rd m i") (auto simp: gbody_None)
  obtain cell b1 k where st: "step x b = (cell, b1, k)"
    by (cases "step x b") auto
  let ?m1 = "setItem i c cell m"
  let ?n1 = "if k then n + 1 else n"
  have i: "i < rowCount m" using Cons.prems(4) by simp
  have run: "forLoop (gbody rd step c) is (?m1, b1, ?n1) = Inr (m', b', n')"
    using Cons.prems(1) gbody_Some [of rd m i x step b cell b1 k c n] rx st by simp
  have wf1: "well_formed ?m1" using Cons.prems(2,3) i by (simp add: wf_setItem)
  have cnt1: "rowCount ?m1 = rowCount m" "columnCount ?m1 = columnCount m"
    "columnHeaderItems ?m1 = columnHeaderItems m"
    using Cons.prems(3) i by simp_all
  have it1: "\<And>r c'. item ?m1 r c' = (if r = i \<and> c' = int c then Some cell else item m r c')"
    using Cons.prems(2,3) i by (simp add: item_setItem)
  have IH: "well_formed m' \<and> rowCount m' = rowCount ?m1 \<and> columnCount m' = columnCount ?m1
   \<and> columnHeaderItems m' = columnHeaderItems ?m1
   \<and> (\<forall>r c'. c' \<noteq> int c \<longrightarrow> item m' r c' = item ?m1 r c')
   \<and> (\<forall>r. r \<notin> set is \<longrightarrow> item m' r (int c) = item ?m1 r (int c))
   \<and> (\<forall>i \<in> set is. rd ?m1 i \<noteq> None)
   \<and> (case pureRun step (map (\<lambda>i. the (rd ?m1 i)) is) b1 of
         (cells, bf, cnt) \<Rightarrow>
           b' = bf \<and> n' = ?n1 + int cnt \<and> map (\<lambda>i. item m' i (int c)) is = map Some cells)"
    using Cons.prems(3,4,5)
    by (intro Cons.IH [OF run wf1 _ _ _ Cons.prems(6)]) (simp_all add: cnt1)
  have rd1: "\<And>j. rd ?m1 j = rd m j"
    using Cons.prems(6) unfolding stable_def by (auto simp: it1)
  have inot: "i \<notin> set is" using Cons.prems(5) by simp
  have celli: "item m' i (int c) = Some cell"
    using IH inot by (simp add: it1)
  obtain cells bf cnt where pr: "pureRun step (map (\<lambda>i. the (rd m i)) is) b1 = (cells, bf, cnt)"
    by (cases "pureRun step (map (\<lambda>i. the (rd m i)) is) b1") auto
  have frame: "well_formed m'" "rowCount m' = rowCount m" "columnCount m' = columnCount m"
    "columnHeaderItems m' = columnHeaderItems m"
    "\<forall>r c'. c' \<noteq> int c \<longrightarrow> item m' r c' = item m r c'"
    "\<forall>r. r \<notin> set (i # is) \<longrightarrow> item m' r (int c) = item m r (int c)"
    "\<forall>j \<in> set (i # is). rd m j \<noteq> None"
    using IH rx by (simp_all add: cnt1 it1 rd1)
  have vals: "b' = bf" "n' = ?n1 + int cnt" "map (\<lambda>i. item m' i (int c)) is = map Some cells"
    using IH pr by (simp_all add: rd1)
  have "case pureRun step (map (\<lambda>i. the (rd m i)) (i # is)) b of
         (cells, bf, cnt) \<Rightarrow>
           b' = bf \<and> n' = n + int cnt \<and> map (\<lambda>i. item m' i (int c)) (i # is) = map Some cells"
    using vals celli by (simp add: rx st pr)
  with frame show ?case by blast
qed

lemma baseOf_Some [simp]: "baseOf parse mk (Some b) xs = Some b"
  by (simp add: baseOf_def)

lemma bstep_None: "parse x = None \<Longrightarrow> bstep parse mk out x base = ([], base, False)"
  by (simp add: bstep_def)

lemma bstep_Some:
  "parse x = Some v \<Longrightarrow>
   bstep parse mk out x base =
     (out (case base of None \<Rightarrow> mk v | Some b \<Rightarrow> b) v,
      Some (case base of None \<Rightarrow> mk v | Some b \<Rightarrow> b), True)"
  by (simp add: bstep_def Let_def)

lemma pureRun_bstep:
  "pureRun (bstep parse mk out) xs base =
     (map (\<lambda>x. case parse x of None \<Rightarrow> [] | Some v \<Rightarrow> out (the (baseOf parse mk base xs)) v) xs,
      baseOf parse mk base xs,
      length (filter (\<lambda>x. parse x \<noteq> None) xs))"
proof (induction xs arbitrary: base)
  case Nil
  show ?case by (simp add: baseOf_def split: option.splits)
next
  case (Cons x xs)
  show ?case
  proof (cases "parse x")
    case None
    have "baseOf parse mk base (x # xs) = baseOf parse mk base xs"
      by (simp add: baseOf_def None split: option.splits)
    then show ?thesis using None by (simp add: Cons.IH bstep_None cong: option.case_cong)
  next
    case (Some v)
    define b where "b = (case base of None \<Rightarrow> mk v | Some b \<Rightarrow> b)"
    have "baseOf parse mk base (x # xs) = Some b"
      by (simp add: baseOf_def Some b_def split: option.splits)
    then show ?thesis using Some by (simp add: Cons.IH bstep_Some b_def [symmetric] cong: option.case_cong)
  qed
qed

lemma firstSome_SomeD:
  "firstSome f xs = Some v \<Longrightarrow> \<exists>k < length xs. f (xs ! k) = Some v \<and> (\<forall>j < k. f (xs ! j) = None)"
proof (induction xs)
  case Nil
  then show ?case by simp
next
  case (Cons x xs)
  show ?case
  proof (cases "f x")
    case None
    with Cons obtain k where k: "k < length xs" "f (xs ! k) = Some v" "\<forall>j < k. f (xs ! j) = None"
      by auto
    have "\<forall>j < Suc k. f ((x # xs) ! j) = None"
      using k(3) None by (auto simp: less_Suc_eq_0_disj)
    with k(1,2) show ?thesis by (intro exI [of _ "Suc k"]) simp
  next
    case (Some w)
    with Cons.prems show ?thesis by (intro exI [of _ 0]) simp
  qed
qed

lemma firstSome_exists:
  "i < length xs \<Longrightarrow> f (xs ! i) = Some w \<Longrightarrow>
   \<exists>k \<le> i. \<exists>v. f (xs ! k) = Some v \<and> (\<forall>j < k. f (xs ! j) = None) \<and> firstSome f xs = Some v"
proof (induction xs arbitrary: i)
  case Nil
  then show ?case by simp
next
  case (Cons x xs)
  show ?case
  proof (cases "f x")
    case (Some v)
    then show ?thesis by (intro exI [of _ 0]) simp
  next
    case None
    with Cons.prems obtain i' where i': "i = Suc i'" by (cases i) auto
    with Cons.prems have "i' < length xs" "f (xs ! i') = Some w" by auto
    from Cons.IH [OF this] obtain k v where
      k: "k \<le> i'" "f (xs ! k) = Some v" "\<forall>j < k. f (xs ! j) = None" "firstSome f xs = Some v"
      by auto
    have "\<forall>j < Suc k. f ((x # xs) ! j) = None"
      using k(3) None by (auto simp: less_Suc_eq_0_disj)
    with k i' None show ?thesis by (intro exI [of _ "Suc k"]) auto
  qed
qed

lemma withColumn_facts:
  assumes "well_formed m"
  shows "well_formed (withColumn nm m)"
    and "rowCount (withColumn nm m) = rowCount m"
    and "columnCount (withColumn nm m) = columnCount m + 1"
    and "columnHeaderItems (withColumn nm m) = columnHeaderItems m @ [Some nm]"
    and "item (withColumn nm m) r c = (if c = int (columnCount m) then None else item m r c)"
proof -
  let ?m1 = "insertColumn (columnCount m) m"
  have e: "withColumn nm m = ?m1\<lparr>columnHeaderItems := (columnHeaderItems ?m1)[columnCount m := Some nm]\<rparr>"
    by (simp add: withColumn_def setHorizontalHeaderItem_inrange)
  have wf1: "well_formed ?m1" using assms by simp
  have len: "length (columnHeaderItems m) = columnCount m"
    using assms by (simp add: well_formed_def)
  show "well_formed (withColumn nm m)"
    using wf1 by (simp add: e well_formed_def)
  show "rowCount (withColumn nm m) = rowCount m"
    using rowCount_insertColumn [of "columnCount m" m] by (simp add: e rowCount_def)
  show "columnCount (withColumn nm m) = columnCount m + 1"
    by (simp add: e)
  show "columnHeaderItems (withColumn nm m) = columnHeaderItems m @ [Some nm]"
    using len list_update_length [of "columnHeaderItems m" None "[]" "Some nm"]
    by (simp add: e assms)
  have "item (withColumn nm m) r c = item ?m1 r c"
    by (simp add: e item_def rowCount_def)
  then show "item (withColumn nm m) r c = (if c = int (columnCount m) then None else item m r c)"
    using assms by (simp add: item_insertColumn)
qed

lemma headerData_withColumn:
  assumes "well_formed m"
  shows "headerData (withColumn nm m) j
         = (if j = columnCount m then nm else headerData m j)"
  using assms withColumn_facts(3,4) [OF assms, of nm]
  by (auto simp: headerData_def nth_append well_formed_def)

lemma pd_notfound:
  "findPressureColumn L model defs = Inr None \<Longrightarrow>
   calculatePressureDrop L u model defs
   = Inr ((declared u)\<lparr>success := False, errorMessage := noPressureMsg\<rparr>, model, defs)"
  by (simp add: calculatePressureDrop_def noPressureMsg_def)

lemma pd_crash_find:
  "findPressureColumn L model defs = Inl e \<Longrightarrow> calculatePressureDrop L u model defs = Inl e"
  by (simp add: calculatePressureDrop_def)

lemma pd_oob:
  "findPressureColumn L model defs = Inr (Some p) \<Longrightarrow> length defs \<le> p \<Longrightarrow>
   calculatePressureDrop L u model defs = Inl IndexOutOfRange"
  by (simp add: calculatePressureDrop_def)

lemma pd_null:
  "findPressureColumn L None defs = Inr (Some p) \<Longrightarrow> p < length defs \<Longrightarrow>
   calculatePressureDrop L u None defs = Inl NullPointer"
  by (simp add: calculatePressureDrop_def)

lemma pd_found:
  "findPressureColumn L (Some m) defs = Inr (Some p) \<Longrightarrow> p < length defs \<Longrightarrow> well_formed m \<Longrightarrow>
   calculatePressureDrop L u (Some m) defs
   = (case forLoop (dropRow L p (columnCount m)) [0..<rowCount m]
             (withColumn (name (pdDef (unit (defs ! p)))) m, None, processedRows u) of
        Inl e \<Rightarrow> Inl e
      | Inr (m3, b, n) \<Rightarrow>
          Inr ((declared u)\<lparr>success := True, processedRows := n,
                              addedColumnIndex := int (columnCount m),
                              columnName := name (pdDef (unit (defs ! p)))\<rparr>,
               Some m3, defs @ [pdDef (unit (defs ! p))]))"
  using withColumn_facts(2) [of m "name (pdDef (unit (defs ! p)))"]
  by (simp add: calculatePressureDrop_def Let_def withColumn_def pdDef_def
      declared_def split: sum.splits)

lemma stable_item: "col \<noteq> int c \<Longrightarrow> stable (\<lambda>m i. item m i col) c"
  by (simp add: stable_def)

lemma forLoop_first:
  "forLoop body [0..<R] s = Inr s' \<Longrightarrow> 0 < R \<Longrightarrow> \<exists>t. body 0 s = Inr t"
  by (simp add: upt_conv_Cons split: sum.splits)

lemma base_loop:
  assumes run: "forLoop (gbody rd (bstep parse mk out) c) [0..<rowCount m] (m, None, n)
                  = Inr (m', b', n')"
    and wf: "well_formed m" and c: "c < columnCount m" and st: "stable rd c"
  shows "well_formed m' \<and> rowCount m' = rowCount m \<and> columnCount m' = columnCount m
         \<and> columnHeaderItems m' = columnHeaderItems m
         \<and> (\<forall>r c'. c' \<noteq> int c \<longrightarrow> item m' r c' = item m r c')"
    and "\<forall>i < rowCount m. rd m i \<noteq> None"
    and "n' = n + int (length (filter (\<lambda>i. parse (the (rd m i)) \<noteq> None) [0..<rowCount m]))"
    and "\<forall>i < rowCount m. item m' i (int c)
           = Some (case parse (the (rd m i)) of
                     None \<Rightarrow> []
                   | Some v \<Rightarrow>
                       out (the (map_option mk
                              (firstSome parse (map (\<lambda>i. the (rd m i)) [0..<rowCount m])))) v)"
proof -
  let ?xs = "map (\<lambda>i. the (rd m i)) [0..<rowCount m]"
  note g = gloop [OF run wf c _ _ st, simplified, unfolded pureRun_bstep, simplified]
  show "well_formed m' \<and> rowCount m' = rowCount m \<and> columnCount m' = columnCount m
         \<and> columnHeaderItems m' = columnHeaderItems m
         \<and> (\<forall>r c'. c' \<noteq> int c \<longrightarrow> item m' r c' = item m r c')"
    using g by blast
  show "\<forall>i < rowCount m. rd m i \<noteq> None" using g by auto
  show "n' = n + int (length (filter (\<lambda>i. parse (the (rd m i)) \<noteq> None) [0..<rowCount m]))"
    using g by (simp add: filter_map comp_def)
  have m: "map (\<lambda>i. item m' i (int c)) [0..<rowCount m]
        = map (\<lambda>i. Some (case parse (the (rd m i)) of None \<Rightarrow> []
                | Some v \<Rightarrow> out (the (baseOf parse mk None ?xs)) v)) [0..<rowCount m]"
    using g by (simp add: comp_def)
  show "\<forall>i < rowCount m. item m' i (int c)
           = Some (case parse (the (rd m i)) of
                     None \<Rightarrow> []
                   | Some v \<Rightarrow> out (the (map_option mk (firstSome parse ?xs))) v)"
  proof (intro allI impI)
    fix i assume i: "i < rowCount m"
    from arg_cong [OF m, of "\<lambda>l. l ! i"] i
    show "item m' i (int c)
           = Some (case parse (the (rd m i)) of
                     None \<Rightarrow> []
                   | Some v \<Rightarrow> out (the (map_option mk (firstSome parse ?xs))) v)"
      by (simp add: baseOf_def cong: option.case_cong)
  qed
qed

lemma dropRow_gbody:
  "dropRow L p c
   = gbody (\<lambda>m i. item m i (int p))
       (bstep (toDouble L) (\<lambda>v. v) (\<lambda>b v. number_f3 L (dsub L b v))) c"
  by (rule ext)+
     (auto simp: dropRow_def gbody_def bstep_def Let_def split: option.splits prod.splits)

lemma dropRow_reads:
  "dropRow L p c i (m, b, n) = Inr t \<Longrightarrow> item m i (int p) \<noteq> None"
  by (auto simp: dropRow_def split: option.splits)

lemma pd_loop:
  assumes loop: "forLoop (dropRow L p (columnCount m)) [0..<rowCount m]
                   (withColumn nm m, None, n) = Inr (m3, b, n')"
    and wf: "well_formed m"
  shows "well_formed m3 \<and> rowCount m3 = rowCount m \<and> columnCount m3 = columnCount m + 1
         \<and> columnHeaderItems m3 = columnHeaderItems m @ [Some nm]
         \<and> (\<forall>r c'. c' \<noteq> int (columnCount m) \<longrightarrow> item m3 r c' = item m r c')"
    and "\<forall>i < rowCount m. item m i (int p) \<noteq> None"
    and "n' = n + int (length (filter (\<lambda>i. toDouble L (the (item m i (int p))) \<noteq> None)
                                 [0..<rowCount m]))"
    and "\<forall>i < rowCount m. item m3 i (int (columnCount m))
           = Some (case toDouble L (the (item m i (int p))) of
                     None \<Rightarrow> []
                   | Some v \<Rightarrow>
                       number_f3 L (dsub L
                         (the (firstSome (toDouble L)
                                (map (\<lambda>i. the (item m i (int p))) [0..<rowCount m]))) v))"
proof -
  let ?m2 = "withColumn nm m"
  let ?C = "columnCount m"
  note w = withColumn_facts [OF wf, of nm]
  have all: "(well_formed m3 \<and> rowCount m3 = rowCount m \<and> columnCount m3 = columnCount m + 1
         \<and> columnHeaderItems m3 = columnHeaderItems m @ [Some nm]
         \<and> (\<forall>r c'. c' \<noteq> int (columnCount m) \<longrightarrow> item m3 r c' = item m r c'))
    \<and> (\<forall>i < rowCount m. item m i (int p) \<noteq> None)
    \<and> n' = n + int (length (filter (\<lambda>i. toDouble L (the (item m i (int p))) \<noteq> None)
                                 [0..<rowCount m]))
    \<and> (\<forall>i < rowCount m. item m3 i (int (columnCount m))
           = Some (case toDouble L (the (item m i (int p))) of
                     None \<Rightarrow> []
                   | Some v \<Rightarrow>
                       number_f3 L (dsub L
                         (the (firstSome (toDouble L)
                                (map (\<lambda>i. the (item m i (int p))) [0..<rowCount m]))) v)))"
  proof (cases "rowCount m = 0")
    case True
    with loop have "m3 = ?m2" "n' = n" by simp_all
    with True w show ?thesis by simp
  next
    case False
    then have pos: "0 < rowCount m" by simp
    from forLoop_first [OF loop pos] have "item ?m2 0 (int p) \<noteq> None"
      by (auto dest: dropRow_reads)
    then have ne: "int p \<noteq> int ?C" by (auto simp: w(5))
    have rd: "\<And>i. item ?m2 i (int p) = item m i (int p)"
      using ne by (simp add: w(5))
    have loop': "forLoop (gbody (\<lambda>m i. item m i (int p))
       (bstep (toDouble L) (\<lambda>v. v) (\<lambda>b v. number_f3 L (dsub L b v))) ?C) [0..<rowCount ?m2]
                   (?m2, None, n) = Inr (m3, b, n')"
      using loop by (simp add: dropRow_gbody w(2))
    have c: "?C < columnCount ?m2" by (simp add: w(3))
    note bl = base_loop [OF loop' w(1) c stable_item [OF ne]]
    have ne': "p \<noteq> ?C" using ne by simp
    show ?thesis
      using bl ne' by (simp add: w option.map_ident cong: option.case_cong)
  qed
  from all show "well_formed m3 \<and> rowCount m3 = rowCount m \<and> columnCount m3 = columnCount m + 1
         \<and> columnHeaderItems m3 = columnHeaderItems m @ [Some nm]
         \<and> (\<forall>r c'. c' \<noteq> int (columnCount m) \<longrightarrow> item m3 r c' = item m r c')" by blast
  from all show "\<forall>i < rowCount m. item m i (int p) \<noteq> None" by blast
  from all show "n' = n + int (length (filter (\<lambda>i. toDouble L (the (item m i (int p))) \<noteq> None)
                                 [0..<rowCount m]))" by blast
  from all show "\<forall>i < rowCount m. item m3 i (int (columnCount m))
           = Some (case toDouble L (the (item m i (int p))) of
                     None \<Rightarrow> []
                   | Some v \<Rightarrow>
                       number_f3 L (dsub L
                         (the (firstSome (toDouble L)
                                (map (\<lambda>i. the (item m i (int p))) [0..<rowCount m]))) v))" by blast
qed

lemma pd_success:
  assumes run: "calculatePressureDrop L u (Some m) defs = Inr (res, model', defs')"
    and ok: "success res" and wf: "well_formed m"
  shows "\<exists>p m3 b n. findPressureColumn L (Some m) defs = Inr (Some p) \<and> p < length defs
           \<and> forLoop (dropRow L p (columnCount m)) [0..<rowCount m]
                 (withColumn (name (pdDef (unit (defs ! p)))) m, None, processedRows u)
               = Inr (m3, b, n)
           \<and> res = (declared u)\<lparr>success := True, processedRows := n,
                                  addedColumnIndex := int (columnCount m),
                                  columnName := name (pdDef (unit (defs ! p)))\<rparr>
           \<and> model' = Some m3 \<and> defs' = defs @ [pdDef (unit (defs ! p))]"
proof (cases "findPressureColumn L (Some m) defs")
  case (Inl e)
  with run show ?thesis by (simp add: pd_crash_find)
next
  case (Inr r)
  show ?thesis
  proof (cases r)
    case None
    with Inr run ok show ?thesis by (auto simp: pd_notfound)
  next
    case (Some p)
    show ?thesis
    proof (cases "p < length defs")
      case False
      with Inr Some run show ?thesis by (simp add: pd_oob)
    next
      case True
      from Inr Some have f: "findPressureColumn L (Some m) defs = Inr (Some p)" by simp
      from run show ?thesis
        unfolding pd_found [OF f True wf] using f True
        by (auto split: sum.splits)
    qed
  qed
qed

lemma grid3_wf: "well_formed grid3"
  by (simp add: grid3_def well_formed_def)

lemma grid3_run:
  "calculatePressureDrop refQt uninit0 (Some grid3) defsP = Inr (res3, Some grid3_drop, defsP_drop)"
  by code_simp

lemma grid3_find: "findPressureColumn refQt (Some grid3) defsP = Inr (Some 0)"
  by code_simp

lemma grid3_src:
  "item grid3 0 0 = Some (qs ''100'')" "item grid3 1 0 = Some (qs ''90'')"
  "item grid3 2 0 = Some (qs ''80'')" "rowCount grid3 = 3" "columnCount grid3 = 1"
  "item grid3 (Suc 0) 0 = Some (qs ''90'')"
  by (simp_all add: grid3_def item_def rowCount_def)

lemma find_upt_None: "find P [0..<n] = None \<longleftrightarrow> (\<forall>i < n. \<not> P i)"
  by (auto simp: find_None_iff)

lemma find_upt_Some: "find P [0..<n] = Some i \<longleftrightarrow> i < n \<and> P i \<and> (\<forall>j < i. \<not> P j)"
  by (auto simp: find_Some_iff)

lemma no_Pressure_iff:
  "(\<forall>i < length defs. type (defs ! i) \<noteq> Pressure) \<longleftrightarrow> (\<forall>d \<in> set defs. type d \<noteq> Pressure)"
  by (metis in_set_conv_nth)

lemma findPressureColumn_None:
  "findPressureColumn L (Some m) defs = Inr None
   \<longleftrightarrow> (\<forall>d \<in> set defs. type d \<noteq> Pressure) \<and> (\<forall>i < columnCount m. \<not> headerMatches L m i)"
  by (auto simp: findPressureColumn_def headerMatches_def find_upt_None find_upt_Some
      no_Pressure_iff [symmetric] split: option.splits)

lemma findPressureColumn_Some:
  "findPressureColumn L model defs = Inr (Some p) \<Longrightarrow>
   (p < length defs \<and> type (defs ! p) = Pressure)
   \<or> ((\<forall>d \<in> set defs. type d \<noteq> Pressure)
      \<and> (\<exists>m. model = Some m \<and> p < columnCount m \<and> headerMatches L m p))"
  by (auto simp: findPressureColumn_def headerMatches_def find_upt_None find_upt_Some
      no_Pressure_iff [symmetric] split: option.splits)

lemma forLoop_dropRow_error: "forLoop (dropRow L p c) is s = Inl e \<Longrightarrow> e = NullPointer"
proof (induction "is" arbitrary: s)
  case Nil
  then show ?case by simp
next
  case (Cons i "is")
  show ?case
  proof (cases "dropRow L p c i s")
    case (Inl e')
    then have "e' = NullPointer"
      by (cases s) (auto simp: dropRow_def Let_def split: option.splits)
    with Cons.prems Inl show ?thesis by simp
  next
    case (Inr s')
    with Cons show ?thesis by simp
  qed
qed

lemma pd_in_bounds_not_oob:
  assumes "findPressureColumn L model defs = Inr (Some p)" and "p < length defs"
  shows "calculatePressureDrop L u model defs \<noteq> Inl IndexOutOfRange"
  using assms
  by (auto simp: calculatePressureDrop_def Let_def split: option.splits sum.splits
      dest: forLoop_dropRow_error)

text \<open>
  C9. \<open>calculatePressureDrop\<close> reads \<open>definitions[pIdx]\<close> at the index \<open>findPressureColumn\<close>
  returns. The read is outside the registry exactly when that index is not below the
  registry's length, and this happens only when no definition is typed \<open>Pressure\<close> and the
  index is that of a grid column found by its header, at or beyond the registry's length.
\<close>

theorem registry_read_out_of_bounds_iff:
  assumes "findPressureColumn L model defs = Inr (Some p)"
  shows "(calculatePressureDrop L uninit model defs = Inl IndexOutOfRange \<longleftrightarrow> length defs \<le> p)
         \<and> (length defs \<le> p \<longrightarrow>
              (\<forall>d \<in> set defs. type d \<noteq> Pressure)
              \<and> (\<exists>m. model = Some m \<and> p < columnCount m
                    \<and> (contains (headerData m p) [0x538B, 0x529B]
                       \<or> containsCI L (headerData m p) (qs ''pressure''))))"
proof -
  have "calculatePressureDrop L uninit model defs = Inl IndexOutOfRange \<longleftrightarrow> length defs \<le> p"
    using pd_oob [OF assms] pd_in_bounds_not_oob [OF assms] by (cases "p < length defs") auto
  moreover have "length defs \<le> p \<longrightarrow>
              (\<forall>d \<in> set defs. type d \<noteq> Pressure)
              \<and> (\<exists>m. model = Some m \<and> p < columnCount m \<and> headerMatches L m p)"
    using findPressureColumn_Some [OF assms] by auto
  ultimately show ?thesis by (simp add: headerMatches_def)
qed

theorem registry_read_out_of_bounds_example:
  "findPressureColumn refQt (Some gridPressureHeader) [] = Inr (Some 1)
   \<and> calculatePressureDrop refQt uninit0 (Some gridPressureHeader) [] = Inl IndexOutOfRange
   \<and> length ([] :: ColumnDefinition list) \<le> 1"
proof -
  have f: "findPressureColumn refQt (Some gridPressureHeader) [] = Inr (Some 1)"
    by code_simp
  from registry_read_out_of_bounds_iff [OF f, of uninit0] f show ?thesis by simp
qed

lemma pd_fail_unchanged:
  assumes "calculatePressureDrop L u model defs = Inr (res, model', defs')" and "\<not> success res"
  shows "findPressureColumn L model defs = Inr None \<and> model' = model \<and> defs' = defs
         \<and> res = (declared u)\<lparr>success := False, errorMessage := noPressureMsg\<rparr>"
  using assms
  by (auto simp: calculatePressureDrop_def Let_def noPressureMsg_def
      split: option.splits sum.splits if_splits)

text \<open>
  C1, as amended. On a grid that is not null, \<open>calculatePressureDrop\<close> returns
  \<open>success = false\<close> with its message, the grid and the registry as they were, exactly when
  no pressure column is found: no definition typed \<open>Pressure\<close> and no header containing
  \<open>U+538B U+529B\<close> or, in any case, \<open>pressure\<close>. Whenever it returns \<open>success = false\<close>,
  nothing was appended and nothing changed. The number of rows plays no part.
\<close>

theorem pressure_drop_fails_iff_no_pressure_column:
  "((\<exists>res. calculatePressureDrop L uninit (Some m) defs = Inr (res, Some m, defs)
           \<and> \<not> success res
           \<and> errorMessage res
               = [0x672A, 0x627E, 0x5230, 0x538B, 0x529B, 0x5217, 0xFF0C, 0x8BF7,
                  0x5148, 0x5B9A, 0x4E49, 0x5217, 0x5C5E, 0x6027, 0x3002])
    \<longleftrightarrow> (\<forall>d \<in> set defs. type d \<noteq> Pressure)
        \<and> (\<forall>i < columnCount m. \<not> contains (headerData m i) [0x538B, 0x529B]
                               \<and> \<not> containsCI L (headerData m i) (qs ''pressure'')))
   \<and> (\<forall>res model' defs'.
         calculatePressureDrop L uninit (Some m) defs = Inr (res, model', defs') \<and> \<not> success res
         \<longrightarrow> model' = Some m \<and> defs' = defs)"
proof -
  let ?none = "(\<forall>d \<in> set defs. type d \<noteq> Pressure) \<and> (\<forall>i < columnCount m. \<not> headerMatches L m i)"
  have a: "(\<exists>res. calculatePressureDrop L uninit (Some m) defs = Inr (res, Some m, defs)
           \<and> \<not> success res \<and> errorMessage res = noPressureMsg) \<longleftrightarrow> ?none"
  proof
    assume "\<exists>res. calculatePressureDrop L uninit (Some m) defs = Inr (res, Some m, defs)
           \<and> \<not> success res \<and> errorMessage res = noPressureMsg"
    then obtain res where "calculatePressureDrop L uninit (Some m) defs = Inr (res, Some m, defs)"
      "\<not> success res" by blast
    from pd_fail_unchanged [OF this] show ?none by (simp add: findPressureColumn_None)
  next
    assume ?none
    then have "findPressureColumn L (Some m) defs = Inr None" by (simp add: findPressureColumn_None)
    from pd_notfound [OF this, of uninit]
    show "\<exists>res. calculatePressureDrop L uninit (Some m) defs = Inr (res, Some m, defs)
           \<and> \<not> success res \<and> errorMessage res = noPressureMsg"
      by simp
  qed
  have b: "\<forall>res model' defs'.
         calculatePressureDrop L uninit (Some m) defs = Inr (res, model', defs') \<and> \<not> success res
         \<longrightarrow> model' = Some m \<and> defs' = defs"
    using pd_fail_unchanged by blast
  from a b show ?thesis by (simp add: headerMatches_def noPressureMsg_def)
qed

theorem pressure_drop_fails_example:
  "(\<exists>res. calculatePressureDrop refQt uninit0 (Some gridNoPressure) [] = Inr (res, Some gridNoPressure, [])
          \<and> \<not> success res
          \<and> errorMessage res
               = [0x672A, 0x627E, 0x5230, 0x538B, 0x529B, 0x5217, 0xFF0C, 0x8BF7,
                  0x5148, 0x5B9A, 0x4E49, 0x5217, 0x5C5E, 0x6027, 0x3002])
   \<and> columnCount gridNoPressure = 1
   \<and> \<not> contains (headerData gridNoPressure 0) [0x538B, 0x529B]
   \<and> \<not> containsCI refQt (headerData gridNoPressure 0) (qs ''pressure'')"
proof -
  have h: "columnCount gridNoPressure = 1"
    "\<not> contains (headerData gridNoPressure 0) [0x538B, 0x529B]"
    "\<not> containsCI refQt (headerData gridNoPressure 0) (qs ''pressure'')"
    by code_simp+
  from pressure_drop_fails_iff_no_pressure_column [of refQt uninit0 gridNoPressure "[]"] h
  show ?thesis by simp
qed

text \<open>
  C1 as stated fails: a grid with no rows and a registry entry typed \<open>Pressure\<close> gets a
  column and a registry record appended, and the call returns \<open>success = true\<close>.
\<close>

theorem pressure_drop_succeeds_on_zero_rows:
  "rowCount gridNoRows = 0
   \<and> calculatePressureDrop refQt uninit0 (Some gridNoRows) defsP
     = Inr (\<lparr>success = True, errorMessage = [], addedColumnIndex = 1,
             columnName = [0x538B, 0x964D, 0x5C] @ qs ''MPa'', processedRows = 7\<rparr>,
            Some \<lparr>columnCount = 2,
                  columnHeaderItems = [Some (qs ''P''), Some ([0x538B, 0x964D, 0x5C] @ qs ''MPa'')],
                  children = []\<rparr>,
            defsP_drop)"
  by code_simp

lemma pd_processedRows:
  assumes "calculatePressureDrop L u (Some m) defs = Inr (res, model', defs')"
    and "success res" and "well_formed m"
    and "findPressureColumn L (Some m) defs = Inr (Some p)"
  shows "processedRows res
         = processedRows u
           + int (length (filter (\<lambda>i. toDouble L (the (item m i (int p))) \<noteq> None)
                            [0..<rowCount m]))"
proof -
  from pd_success [OF assms(1,2,3)] assms(4) obtain m3 b n where
    loop: "forLoop (dropRow L p (columnCount m)) [0..<rowCount m]
                 (withColumn (name (pdDef (unit (defs ! p)))) m, None, processedRows u)
               = Inr (m3, b, n)"
    and res: "res = (declared u)\<lparr>success := True, processedRows := n,
                                  addedColumnIndex := int (columnCount m),
                                  columnName := name (pdDef (unit (defs ! p)))\<rparr>"
    by auto
  from pd_loop(3) [OF loop assms(3)] res show ?thesis by simp
qed

text \<open>
  C2 for \<open>calculatePressureDrop\<close>: the function never assigns \<open>processedRows\<close> before it
  counts, so the count starts from the indeterminate contents of the local \<open>result\<close>
  (\<open>pd_processedRows\<close>). Started from 7, a grid of two parsable rows returns 9.
\<close>

theorem pressure_drop_processedRows_not_row_count:
  "rowCount grid2 = 2
   \<and> calculatePressureDrop refQt uninit0 (Some grid2) defsP
     = Inr (\<lparr>success = True, errorMessage = [], addedColumnIndex = 1,
             columnName = [0x538B, 0x964D, 0x5C] @ qs ''MPa'', processedRows = 9\<rparr>,
            Some \<lparr>columnCount = 2,
                  columnHeaderItems = [Some (qs ''P''), Some ([0x538B, 0x964D, 0x5C] @ qs ''MPa'')],
                  children = [[Some (qs ''100''), Some (qs ''0.000'')],
                              [Some (qs ''90''), Some (qs ''10.000'')]]\<rparr>,
            defsP_drop)"
  by code_simp

lemma timeRow_gbody_dt:
  "useDateAndTime config \<Longrightarrow>
   timeRow L config c
   = gbody (dtRead config) (bstep (dtParse L) (\<lambda>v. v) (dtOut L (outputUnit config))) c"
  by (rule ext)+
     (auto simp: timeRow_def rowValue_def gbody_def bstep_def dtRead_def dtParse_def dtOut_def
        Let_def split: option.splits prod.splits)

lemma timeRow_gbody_to:
  "\<not> useDateAndTime config \<Longrightarrow>
   timeRow L config c
   = gbody (\<lambda>m i. item m i (sourceTimeColumnIndex config))
       (bstep (toParse L) (today L) (toOut L (outputUnit config))) c"
  by (rule ext)+
     (auto simp: timeRow_def rowValue_def gbody_def bstep_def toParse_def toOut_def today_def
        rolled_def Let_def split: option.splits prod.splits)

lemma stable_dtRead:
  "dateColumnIndex config \<noteq> int c \<Longrightarrow> timeColumnIndex config \<noteq> int c \<Longrightarrow>
   stable (dtRead config) c"
  by (simp add: stable_def dtRead_def cong: option.case_cong)

lemma ct_null:
  "convertTimeColumn L u None defs config
   = Inr ((declared u)\<lparr>success := False, processedRows := 0, errorMessage := emptyMsg\<rparr>, None, defs)"
  by (simp add: convertTimeColumn_def emptyMsg_def)

lemma ct_norows:
  "rowCount m = 0 \<Longrightarrow>
   convertTimeColumn L u (Some m) defs config
   = Inr ((declared u)\<lparr>success := False, processedRows := 0, errorMessage := noDataMsg\<rparr>,
          Some m, defs)"
  by (simp add: convertTimeColumn_def noDataMsg_def)

lemma ct_rows:
  "rowCount m \<noteq> 0 \<Longrightarrow>
   convertTimeColumn L u (Some m) defs config
   = (case forLoop (timeRow L config (columnCount m)) [0..<rowCount m]
             (withColumn (name (tcDef config)) m, None, 0) of
        Inl e \<Rightarrow> Inl e
      | Inr (m3, b, n) \<Rightarrow>
          Inr ((declared u)\<lparr>success := True, processedRows := n,
                              addedColumnIndex := int (columnCount m),
                              columnName := name (tcDef config)\<rparr>,
               Some m3, defs @ [tcDef config]))"
  by (simp add: convertTimeColumn_def Let_def withColumn_def tcDef_def declared_def
      split: sum.splits)

lemma ct_success:
  assumes run: "convertTimeColumn L u model defs config = Inr (res, model', defs')"
    and ok: "success res"
  shows "\<exists>m m3 b n. model = Some m \<and> rowCount m \<noteq> 0
           \<and> forLoop (timeRow L config (columnCount m)) [0..<rowCount m]
                 (withColumn (name (tcDef config)) m, None, 0) = Inr (m3, b, n)
           \<and> res = (declared u)\<lparr>success := True, processedRows := n,
                                  addedColumnIndex := int (columnCount m),
                                  columnName := name (tcDef config)\<rparr>
           \<and> model' = Some m3 \<and> defs' = defs @ [tcDef config]"
proof (cases model)
  case None
  with run ok show ?thesis by (auto simp: ct_null)
next
  case (Some m)
  show ?thesis
  proof (cases "rowCount m = 0")
    case True
    with run ok Some show ?thesis by (auto simp: ct_norows)
  next
    case False
    from run show ?thesis
      unfolding Some ct_rows [OF False] using False by (auto split: sum.splits)
  qed
qed

lemma withColumn_loop:
  assumes loop: "forLoop (gbody rd (bstep parse mk out) (columnCount m)) [0..<rowCount m]
                   (withColumn nm m, None, n) = Inr (m3, b, n')"
    and wf: "well_formed m"
    and st: "stable rd (columnCount m)"
    and rd: "\<And>i. rd (withColumn nm m) i = rd m i"
  shows "well_formed m3 \<and> rowCount m3 = rowCount m \<and> columnCount m3 = columnCount m + 1
         \<and> columnHeaderItems m3 = columnHeaderItems m @ [Some nm]
         \<and> (\<forall>r c'. c' \<noteq> int (columnCount m) \<longrightarrow> item m3 r c' = item m r c')"
    and "\<forall>i < rowCount m. rd m i \<noteq> None"
    and "n' = n + int (length (filter (\<lambda>i. parse (the (rd m i)) \<noteq> None) [0..<rowCount m]))"
    and "\<forall>i < rowCount m. item m3 i (int (columnCount m))
           = Some (case parse (the (rd m i)) of
                     None \<Rightarrow> []
                   | Some v \<Rightarrow>
                       out (the (map_option mk
                              (firstSome parse (map (\<lambda>i. the (rd m i)) [0..<rowCount m])))) v)"
proof -
  let ?m2 = "withColumn nm m"
  note w = withColumn_facts [OF wf, of nm]
  have loop': "forLoop (gbody rd (bstep parse mk out) (columnCount m)) [0..<rowCount ?m2]
                   (?m2, None, n) = Inr (m3, b, n')"
    using loop by (simp add: w(2))
  have c: "columnCount m < columnCount ?m2" by (simp add: w(3))
  note bl = base_loop [OF loop' w(1) c st]
  show "well_formed m3 \<and> rowCount m3 = rowCount m \<and> columnCount m3 = columnCount m + 1
         \<and> columnHeaderItems m3 = columnHeaderItems m @ [Some nm]
         \<and> (\<forall>r c'. c' \<noteq> int (columnCount m) \<longrightarrow> item m3 r c' = item m r c')"
    using bl(1) by (simp add: w)
  show "\<forall>i < rowCount m. rd m i \<noteq> None"
    using bl(2) by (simp add: w(2) rd)
  show "n' = n + int (length (filter (\<lambda>i. parse (the (rd m i)) \<noteq> None) [0..<rowCount m]))"
    using bl(3) by (simp add: w(2) rd)
  show "\<forall>i < rowCount m. item m3 i (int (columnCount m))
           = Some (case parse (the (rd m i)) of
                     None \<Rightarrow> []
                   | Some v \<Rightarrow>
                       out (the (map_option mk
                              (firstSome parse (map (\<lambda>i. the (rd m i)) [0..<rowCount m])))) v)"
    using bl(4) by (simp add: w(2) rd cong: option.case_cong)
qed

lemma timeRow_reads_dt:
  "useDateAndTime config \<Longrightarrow> timeRow L config c i (m, b, n) = Inr t \<Longrightarrow>
   item m i (dateColumnIndex config) \<noteq> None \<and> item m i (timeColumnIndex config) \<noteq> None"
  by (auto simp: timeRow_def rowValue_def split: option.splits)

lemma timeRow_reads_to:
  "\<not> useDateAndTime config \<Longrightarrow> timeRow L config c i (m, b, n) = Inr t \<Longrightarrow>
   item m i (sourceTimeColumnIndex config) \<noteq> None"
  by (auto simp: timeRow_def rowValue_def split: option.splits)

lemma tc_loop_dt:
  assumes loop: "forLoop (timeRow L config (columnCount m)) [0..<rowCount m]
                   (withColumn nm m, None, n) = Inr (m3, b, n')"
    and wf: "well_formed m" and dt: "useDateAndTime config" and pos: "rowCount m \<noteq> 0"
  shows "well_formed m3 \<and> rowCount m3 = rowCount m \<and> columnCount m3 = columnCount m + 1
         \<and> columnHeaderItems m3 = columnHeaderItems m @ [Some nm]
         \<and> (\<forall>r c'. c' \<noteq> int (columnCount m) \<longrightarrow> item m3 r c' = item m r c')"
    and "\<forall>i < rowCount m. dtRead config m i \<noteq> None"
    and "n' = n + int (length (filter (\<lambda>i. dtParse L (the (dtRead config m i)) \<noteq> None)
                                 [0..<rowCount m]))"
    and "\<forall>i < rowCount m. item m3 i (int (columnCount m))
           = Some (case dtParse L (the (dtRead config m i)) of
                     None \<Rightarrow> []
                   | Some v \<Rightarrow>
                       dtOut L (outputUnit config)
                         (the (firstSome (dtParse L)
                                 (map (\<lambda>i. the (dtRead config m i)) [0..<rowCount m]))) v)"
proof -
  note w = withColumn_facts [OF wf, of nm]
  from pos have p: "0 < rowCount m" by simp
  from forLoop_first [OF loop p] timeRow_reads_dt [OF dt]
  have "item (withColumn nm m) 0 (dateColumnIndex config) \<noteq> None"
       "item (withColumn nm m) 0 (timeColumnIndex config) \<noteq> None"
    by blast+
  then have ne: "dateColumnIndex config \<noteq> int (columnCount m)"
      "timeColumnIndex config \<noteq> int (columnCount m)"
    by (auto simp: w(5))
  have rd: "\<And>i. dtRead config (withColumn nm m) i = dtRead config m i"
    using ne by (simp add: dtRead_def w(5) cong: option.case_cong)
  have loop': "forLoop (gbody (dtRead config)
        (bstep (dtParse L) (\<lambda>v. v) (dtOut L (outputUnit config))) (columnCount m))
        [0..<rowCount m] (withColumn nm m, None, n) = Inr (m3, b, n')"
    using loop by (simp add: timeRow_gbody_dt [OF dt])
  note l = withColumn_loop [OF loop' wf stable_dtRead [OF ne] rd]
  show "well_formed m3 \<and> rowCount m3 = rowCount m \<and> columnCount m3 = columnCount m + 1
         \<and> columnHeaderItems m3 = columnHeaderItems m @ [Some nm]
         \<and> (\<forall>r c'. c' \<noteq> int (columnCount m) \<longrightarrow> item m3 r c' = item m r c')"
    by (rule l(1))
  show "\<forall>i < rowCount m. dtRead config m i \<noteq> None" by (rule l(2))
  show "n' = n + int (length (filter (\<lambda>i. dtParse L (the (dtRead config m i)) \<noteq> None)
                                 [0..<rowCount m]))" by (rule l(3))
  show "\<forall>i < rowCount m. item m3 i (int (columnCount m))
           = Some (case dtParse L (the (dtRead config m i)) of
                     None \<Rightarrow> []
                   | Some v \<Rightarrow>
                       dtOut L (outputUnit config)
                         (the (firstSome (dtParse L)
                                 (map (\<lambda>i. the (dtRead config m i)) [0..<rowCount m]))) v)"
    using l(4) by (simp add: option.map_ident cong: option.case_cong)
qed

lemma tc_loop_to:
  assumes loop: "forLoop (timeRow L config (columnCount m)) [0..<rowCount m]
                   (withColumn nm m, None, n) = Inr (m3, b, n')"
    and wf: "well_formed m" and dt: "\<not> useDateAndTime config" and pos: "rowCount m \<noteq> 0"
  shows "well_formed m3 \<and> rowCount m3 = rowCount m \<and> columnCount m3 = columnCount m + 1
         \<and> columnHeaderItems m3 = columnHeaderItems m @ [Some nm]
         \<and> (\<forall>r c'. c' \<noteq> int (columnCount m) \<longrightarrow> item m3 r c' = item m r c')"
    and "\<forall>i < rowCount m. item m i (sourceTimeColumnIndex config) \<noteq> None"
    and "n' = n + int (length (filter
                 (\<lambda>i. toParse L (the (item m i (sourceTimeColumnIndex config))) \<noteq> None)
                 [0..<rowCount m]))"
    and "\<forall>i < rowCount m. item m3 i (int (columnCount m))
           = Some (case toParse L (the (item m i (sourceTimeColumnIndex config))) of
                     None \<Rightarrow> []
                   | Some v \<Rightarrow>
                       toOut L (outputUnit config)
                         (the (map_option (today L) (firstSome (toParse L)
                                 (map (\<lambda>i. the (item m i (sourceTimeColumnIndex config)))
                                      [0..<rowCount m])))) v)"
proof -
  note w = withColumn_facts [OF wf, of nm]
  from pos have p: "0 < rowCount m" by simp
  from forLoop_first [OF loop p] timeRow_reads_to [OF dt]
  have "item (withColumn nm m) 0 (sourceTimeColumnIndex config) \<noteq> None"
    by blast
  then have ne: "sourceTimeColumnIndex config \<noteq> int (columnCount m)"
    by (auto simp: w(5))
  have rd: "\<And>i. item (withColumn nm m) i (sourceTimeColumnIndex config)
               = item m i (sourceTimeColumnIndex config)"
    using ne by (simp add: w(5))
  have loop': "forLoop (gbody (\<lambda>m i. item m i (sourceTimeColumnIndex config))
        (bstep (toParse L) (today L) (toOut L (outputUnit config))) (columnCount m))
        [0..<rowCount m] (withColumn nm m, None, n) = Inr (m3, b, n')"
    using loop by (simp add: timeRow_gbody_to [OF dt])
  note l = withColumn_loop [OF loop' wf stable_item [OF ne] rd]
  show "well_formed m3 \<and> rowCount m3 = rowCount m \<and> columnCount m3 = columnCount m + 1
         \<and> columnHeaderItems m3 = columnHeaderItems m @ [Some nm]
         \<and> (\<forall>r c'. c' \<noteq> int (columnCount m) \<longrightarrow> item m3 r c' = item m r c')"
    by (rule l(1))
  show "\<forall>i < rowCount m. item m i (sourceTimeColumnIndex config) \<noteq> None" by (rule l(2))
  show "n' = n + int (length (filter
                 (\<lambda>i. toParse L (the (item m i (sourceTimeColumnIndex config))) \<noteq> None)
                 [0..<rowCount m]))" by (rule l(3))
  show "\<forall>i < rowCount m. item m3 i (int (columnCount m))
           = Some (case toParse L (the (item m i (sourceTimeColumnIndex config))) of
                     None \<Rightarrow> []
                   | Some v \<Rightarrow>
                       toOut L (outputUnit config)
                         (the (map_option (today L) (firstSome (toParse L)
                                 (map (\<lambda>i. the (item m i (sourceTimeColumnIndex config)))
                                      [0..<rowCount m])))) v)"
    by (rule l(4))
qed

lemma secsTo_self [simp]: "secsTo a a = 0"
  by (simp add: secsTo_def cdiv_def)






lemma gridDT_run:
  "convertTimeColumn refQt uninit0 (Some gridDT) [] configDT = Inr (resDT, Some gridDT_out, defsT_out)"
  by code_simp


lemma gridDT_facts:
  "well_formed gridDT" "rowCount gridDT = 2" "columnCount gridDT = 2"
  "item gridDT 0 0 = Some (qs ''2025-01-01'')" "item gridDT 0 1 = Some (qs ''10:00:00'')"
  "item gridDT 1 0 = Some (qs ''2025-01-01'')" "item gridDT 1 1 = Some (qs ''11:00:00'')"
  "item gridDT (Suc 0) 0 = Some (qs ''2025-01-01'')" "item gridDT (Suc 0) 1 = Some (qs ''11:00:00'')"
  by (simp_all add: gridDT_def well_formed_def item_def rowCount_def)


lemma config_facts:
  "useDateAndTime configDT" "dateColumnIndex configDT = 0" "timeColumnIndex configDT = 1"
  "outputUnit configDT = qs ''h''"
  "\<not> useDateAndTime configT" "sourceTimeColumnIndex configT = 0" "outputUnit configT = qs ''h''"
  by (simp_all add: configDT_def configT_def)





lemma gloop_total:
  "well_formed m \<Longrightarrow> c < columnCount m \<Longrightarrow> \<forall>i \<in> set is. i < rowCount m \<Longrightarrow> stable rd c \<Longrightarrow>
   \<forall>i \<in> set is. rd m i \<noteq> None \<Longrightarrow>
   \<exists>s'. forLoop (gbody rd step c) is (m, b, n) = Inr s'"
proof (induction "is" arbitrary: m b n)
  case Nil
  show ?case by simp
next
  case (Cons i "is")
  from Cons.prems(5) obtain x where rx: "rd m i = Some x" by auto
  obtain cell b1 k where st: "step x b = (cell, b1, k)" by (cases "step x b") auto
  let ?m1 = "setItem i c cell m"
  have i: "i < rowCount m" using Cons.prems(3) by simp
  have wf1: "well_formed ?m1" using Cons.prems(1,2) i by (simp add: wf_setItem)
  have it1: "\<And>r c'. item ?m1 r c' = (if r = i \<and> c' = int c then Some cell else item m r c')"
    using Cons.prems(1,2) i by (simp add: item_setItem)
  have rd1: "\<And>j. rd ?m1 j = rd m j"
    using Cons.prems(4) unfolding stable_def by (auto simp: it1)
  have "\<exists>s'. forLoop (gbody rd step c) is (?m1, b1, if k then n + 1 else n) = Inr s'"
    using Cons.prems(2,3,5) i
    by (intro Cons.IH [OF wf1 _ _ Cons.prems(4)]) (simp_all add: rd1)
  then show ?case
    using gbody_Some [of rd m i x step b cell b1 k c n] rx st by simp
qed

lemma headerData_appended:
  assumes "well_formed m" and "columnHeaderItems m3 = columnHeaderItems m @ [Some nm]"
    and "columnCount m3 = columnCount m + 1"
  shows "headerData m3 (columnCount m) = nm"
    and "j < columnCount m \<Longrightarrow> headerData m3 j = headerData m j"
  using assms by (auto simp: headerData_def nth_append well_formed_def)

lemma tc_loop_frame:
  assumes loop: "forLoop (timeRow L config (columnCount m)) [0..<rowCount m]
                   (withColumn nm m, None, n) = Inr (m3, b, n')"
    and wf: "well_formed m" and pos: "rowCount m \<noteq> 0"
  shows "well_formed m3 \<and> rowCount m3 = rowCount m \<and> columnCount m3 = columnCount m + 1
         \<and> columnHeaderItems m3 = columnHeaderItems m @ [Some nm]
         \<and> (\<forall>r c'. c' \<noteq> int (columnCount m) \<longrightarrow> item m3 r c' = item m r c')
         \<and> (\<forall>i < rowCount m. item m3 i (int (columnCount m)) \<noteq> None)"
proof (cases "useDateAndTime config")
  case True
  from tc_loop_dt(1) [OF loop wf True pos] tc_loop_dt(4) [OF loop wf True pos]
  show ?thesis by simp
next
  case False
  from tc_loop_to(1) [OF loop wf False pos] tc_loop_to(4) [OF loop wf False pos]
  show ?thesis by simp
qed

lemma pd_null_crashes: "\<exists>e. calculatePressureDrop L u None defs = Inl e"
  by (auto simp: calculatePressureDrop_def findPressureColumn_def Let_def split: option.splits)

text \<open>
  C8. Whenever \<open>convertTimeColumn\<close> or \<open>calculatePressureDrop\<close> returns \<open>success = true\<close>,
  the grid was not null, it has one column more and the same rows, \<open>addedColumnIndex\<close> is
  the column count before the call, the columns before that index keep their headers and
  their cells, the new column has the composed name as its header and an item in every row,
  and the registry is the old one followed by one record: typed \<open>Time\<close> with the configured
  unit, or typed \<open>PressureDrop\<close> with the unit of the definition at the located pressure
  index; \<open>decimalPlaces\<close> is 3 in both.
\<close>

theorem successful_calculation_appends_one_column:
  "(convertTimeColumn L uninit model defs config = Inr (res, model', defs') \<and> success res
      \<and> (\<forall>m. model = Some m \<longrightarrow> well_formed m)
    \<longrightarrow> (\<exists>m m'. model = Some m \<and> model' = Some m'
           \<and> columnCount m' = columnCount m + 1 \<and> rowCount m' = rowCount m
           \<and> addedColumnIndex res = int (columnCount m)
           \<and> (\<forall>j < columnCount m. headerData m' j = headerData m j)
           \<and> headerData m' (columnCount m) = newColumnName config @ [0x5C] @ outputUnit config
           \<and> (\<forall>r c. c \<noteq> int (columnCount m) \<longrightarrow> item m' r c = item m r c)
           \<and> (\<forall>r < rowCount m. item m' r (int (columnCount m)) \<noteq> None)
           \<and> defs' = defs @ [\<lparr>name = newColumnName config @ [0x5C] @ outputUnit config,
                               type = Time, unit = outputUnit config, isRequired = False,
                               decimalPlaces = 3\<rparr>]))
   \<and> (calculatePressureDrop L uninit model defs = Inr (res, model', defs') \<and> success res
      \<and> (\<forall>m. model = Some m \<longrightarrow> well_formed m)
    \<longrightarrow> (\<exists>m m' p. model = Some m \<and> model' = Some m'
           \<and> findPressureColumn L model defs = Inr (Some p) \<and> p < length defs
           \<and> columnCount m' = columnCount m + 1 \<and> rowCount m' = rowCount m
           \<and> addedColumnIndex res = int (columnCount m)
           \<and> (\<forall>j < columnCount m. headerData m' j = headerData m j)
           \<and> headerData m' (columnCount m) = [0x538B, 0x964D, 0x5C] @ unit (defs ! p)
           \<and> (\<forall>r c. c \<noteq> int (columnCount m) \<longrightarrow> item m' r c = item m r c)
           \<and> (\<forall>r < rowCount m. item m' r (int (columnCount m)) \<noteq> None)
           \<and> defs' = defs @ [\<lparr>name = [0x538B, 0x964D, 0x5C] @ unit (defs ! p),
                               type = PressureDrop, unit = unit (defs ! p), isRequired = False,
                               decimalPlaces = 3\<rparr>]))"
proof (intro conjI impI; elim conjE)
  assume run: "convertTimeColumn L uninit model defs config = Inr (res, model', defs')"
    and ok: "success res" and wfa: "\<forall>m. model = Some m \<longrightarrow> well_formed m"
  from ct_success [OF run ok] obtain m m3 b n where
    m: "model = Some m" and pos: "rowCount m \<noteq> 0" and
    loop: "forLoop (timeRow L config (columnCount m)) [0..<rowCount m]
                 (withColumn (name (tcDef config)) m, None, 0) = Inr (m3, b, n)" and
    res: "res = (declared uninit)\<lparr>success := True, processedRows := n,
                                  addedColumnIndex := int (columnCount m),
                                  columnName := name (tcDef config)\<rparr>" and
    out: "model' = Some m3" "defs' = defs @ [tcDef config]"
    by blast
  from wfa m have wf: "well_formed m" by simp
  note f = tc_loop_frame [OF loop wf pos]
  have nm: "name (tcDef config) = newColumnName config @ [0x5C] @ outputUnit config"
    by (simp add: tcDef_def)
  have hd: "headerData m3 (columnCount m) = name (tcDef config)"
    "\<forall>j < columnCount m. headerData m3 j = headerData m j"
    using headerData_appended [OF wf, of m3 "name (tcDef config)"] f by auto
  have d: "tcDef config = \<lparr>name = newColumnName config @ [0x5C] @ outputUnit config,
                               type = Time, unit = outputUnit config, isRequired = False,
                               decimalPlaces = 3\<rparr>"
    by (simp add: tcDef_def ColumnDefinition0_def)
  show "\<exists>m m'. model = Some m \<and> model' = Some m'
           \<and> columnCount m' = columnCount m + 1 \<and> rowCount m' = rowCount m
           \<and> addedColumnIndex res = int (columnCount m)
           \<and> (\<forall>j < columnCount m. headerData m' j = headerData m j)
           \<and> headerData m' (columnCount m) = newColumnName config @ [0x5C] @ outputUnit config
           \<and> (\<forall>r c. c \<noteq> int (columnCount m) \<longrightarrow> item m' r c = item m r c)
           \<and> (\<forall>r < rowCount m. item m' r (int (columnCount m)) \<noteq> None)
           \<and> defs' = defs @ [\<lparr>name = newColumnName config @ [0x5C] @ outputUnit config,
                               type = Time, unit = outputUnit config, isRequired = False,
                               decimalPlaces = 3\<rparr>]"
    using m out f hd res unfolding nm d
    by (intro exI [of _ m] exI [of _ m3]) simp
next
  assume run: "calculatePressureDrop L uninit model defs = Inr (res, model', defs')"
    and ok: "success res" and wfa: "\<forall>m. model = Some m \<longrightarrow> well_formed m"
  from run pd_null_crashes [of L uninit defs] obtain m where m: "model = Some m"
    by (cases model) auto
  from wfa m have wf: "well_formed m" by simp
  from pd_success [OF run [unfolded m] ok wf] obtain p m3 b n where
    f: "findPressureColumn L (Some m) defs = Inr (Some p)" "p < length defs" and
    loop: "forLoop (dropRow L p (columnCount m)) [0..<rowCount m]
                 (withColumn (name (pdDef (unit (defs ! p)))) m, None, processedRows uninit)
               = Inr (m3, b, n)" and
    res: "res = (declared uninit)\<lparr>success := True, processedRows := n,
                                  addedColumnIndex := int (columnCount m),
                                  columnName := name (pdDef (unit (defs ! p)))\<rparr>" and
    out: "model' = Some m3" "defs' = defs @ [pdDef (unit (defs ! p))]"
    by blast
  note l = pd_loop [OF loop wf]
  have nm: "name (pdDef (unit (defs ! p))) = [0x538B, 0x964D, 0x5C] @ unit (defs ! p)"
    by (simp add: pdDef_def)
  have hd: "headerData m3 (columnCount m) = name (pdDef (unit (defs ! p)))"
    "\<forall>j < columnCount m. headerData m3 j = headerData m j"
    using headerData_appended [OF wf, of m3 "name (pdDef (unit (defs ! p)))"] l(1) by auto
  have d: "pdDef (unit (defs ! p)) = \<lparr>name = [0x538B, 0x964D, 0x5C] @ unit (defs ! p),
                               type = PressureDrop, unit = unit (defs ! p), isRequired = False,
                               decimalPlaces = 3\<rparr>"
    by (simp add: pdDef_def ColumnDefinition0_def)
  have cells: "\<forall>r < rowCount m. item m3 r (int (columnCount m)) \<noteq> None"
    using l(4) by simp
  show "\<exists>m m' p. model = Some m \<and> model' = Some m'
           \<and> findPressureColumn L model defs = Inr (Some p) \<and> p < length defs
           \<and> columnCount m' = columnCount m + 1 \<and> rowCount m' = rowCount m
           \<and> addedColumnIndex res = int (columnCount m)
           \<and> (\<forall>j < columnCount m. headerData m' j = headerData m j)
           \<and> headerData m' (columnCount m) = [0x538B, 0x964D, 0x5C] @ unit (defs ! p)
           \<and> (\<forall>r c. c \<noteq> int (columnCount m) \<longrightarrow> item m' r c = item m r c)
           \<and> (\<forall>r < rowCount m. item m' r (int (columnCount m)) \<noteq> None)
           \<and> defs' = defs @ [\<lparr>name = [0x538B, 0x964D, 0x5C] @ unit (defs ! p),
                               type = PressureDrop, unit = unit (defs ! p), isRequired = False,
                               decimalPlaces = 3\<rparr>]"
    using m out f l(1) hd res cells unfolding nm d
    by (intro exI [of _ m] exI [of _ m3] exI [of _ p]) simp
qed

theorem successful_calculation_appends_one_column_example:
  "(convertTimeColumn refQt uninit0 (Some gridDT) [] configDT = Inr (resDT, Some gridDT_out, defsT_out)
    \<and> success resDT \<and> well_formed gridDT
    \<and> columnCount gridDT = 2 \<and> columnCount gridDT_out = 3 \<and> addedColumnIndex resDT = 2
    \<and> defsT_out = [\<lparr>name = qs ''t'' @ [0x5C] @ qs ''h'', type = Time, unit = qs ''h'',
                     isRequired = False, decimalPlaces = 3\<rparr>])
   \<and> (calculatePressureDrop refQt uninit0 (Some grid3) defsP = Inr (res3, Some grid3_drop, defsP_drop)
    \<and> success res3 \<and> well_formed grid3
    \<and> columnCount grid3 = 1 \<and> columnCount grid3_drop = 2 \<and> addedColumnIndex res3 = 1
    \<and> defsP_drop = defsP @ [\<lparr>name = [0x538B, 0x964D, 0x5C] @ qs ''MPa'', type = PressureDrop,
                              unit = qs ''MPa'', isRequired = False, decimalPlaces = 3\<rparr>])"
proof -
  have ok: "success resDT" "success res3" by (simp_all add: resDT_def res3_def)
  have cfg: "newColumnName configDT = qs ''t''" "outputUnit configDT = qs ''h''"
    by (simp_all add: configDT_def)
  have u: "unit (defsP ! 0) = qs ''MPa''" by (simp add: defsP_def)
  from successful_calculation_appends_one_column
         [of refQt uninit0 "Some gridDT" "[]" configDT resDT "Some gridDT_out" defsT_out,
          THEN conjunct1]
       gridDT_run ok(1) gridDT_facts(1,3)
  have a: "columnCount gridDT_out = 3 \<and> addedColumnIndex resDT = 2
    \<and> defsT_out = [\<lparr>name = qs ''t'' @ [0x5C] @ qs ''h'', type = Time, unit = qs ''h'',
                     isRequired = False, decimalPlaces = 3\<rparr>]"
    by (auto simp: cfg)
  from successful_calculation_appends_one_column
         [of refQt uninit0 "Some grid3" defsP configDT res3 "Some grid3_drop" defsP_drop,
          THEN conjunct2]
       grid3_run ok(2) grid3_wf grid3_src(5) grid3_find
  have b: "columnCount grid3_drop = 2 \<and> addedColumnIndex res3 = 1
    \<and> defsP_drop = defsP @ [\<lparr>name = [0x538B, 0x964D, 0x5C] @ qs ''MPa'', type = PressureDrop,
                              unit = qs ''MPa'', isRequired = False, decimalPlaces = 3\<rparr>]"
    by (auto simp: u)
  from a b gridDT_run grid3_run ok gridDT_facts(1,3) grid3_wf grid3_src(5) show ?thesis
    by simp
qed

lemma ct_total:
  assumes pos: "rowCount m \<noteq> 0" and wf: "well_formed m"
    and src: "\<forall>i < rowCount m.
                if useDateAndTime config
                then item m i (dateColumnIndex config) \<noteq> None
                     \<and> item m i (timeColumnIndex config) \<noteq> None
                else item m i (sourceTimeColumnIndex config) \<noteq> None"
  shows "\<exists>s'. forLoop (timeRow L config (columnCount m)) [0..<rowCount m]
                 (withColumn nm m, None, n) = Inr s'"
proof -
  note w = withColumn_facts [OF wf, of nm]
  from pos have p: "0 < rowCount m" by simp
  have c: "columnCount m < columnCount (withColumn nm m)" by (simp add: w(3))
  have rows: "\<forall>i \<in> set [0..<rowCount m]. i < rowCount (withColumn nm m)" by (simp add: w(2))
  show ?thesis
  proof (cases "useDateAndTime config")
    case True
    from src True have s: "\<forall>i < rowCount m. item m i (dateColumnIndex config) \<noteq> None
                     \<and> item m i (timeColumnIndex config) \<noteq> None" by simp
    with p have "item m 0 (dateColumnIndex config) \<noteq> None"
      "item m 0 (timeColumnIndex config) \<noteq> None" by blast+
    then have ne: "dateColumnIndex config \<noteq> int (columnCount m)"
        "timeColumnIndex config \<noteq> int (columnCount m)"
      by (auto simp: item_def)
    have rd: "\<forall>i \<in> set [0..<rowCount m]. dtRead config (withColumn nm m) i \<noteq> None"
      using s ne by (auto simp: dtRead_def w(5) split: option.splits)
    from gloop_total [OF w(1) c rows stable_dtRead [OF ne] rd]
    show ?thesis by (simp add: timeRow_gbody_dt [OF True])
  next
    case False
    from src False have s: "\<forall>i < rowCount m. item m i (sourceTimeColumnIndex config) \<noteq> None"
      by simp
    with p have "item m 0 (sourceTimeColumnIndex config) \<noteq> None" by blast
    then have ne: "sourceTimeColumnIndex config \<noteq> int (columnCount m)"
      by (auto simp: item_def)
    have rd: "\<forall>i \<in> set [0..<rowCount m].
                item (withColumn nm m) i (sourceTimeColumnIndex config) \<noteq> None"
      using s ne by (simp add: w(5))
    from gloop_total [where rd = "\<lambda>m i. item m i (sourceTimeColumnIndex config)",
                      OF w(1) c rows stable_item [OF ne] rd]
    show ?thesis by (simp add: timeRow_gbody_to [OF False])
  qed
qed

text \<open>
  C3, as amended. On a null grid \<open>convertTimeColumn\<close> returns \<open>success = false\<close> with the
  message \<open>U+6570 U+636E U+6A21 U+578B U+4E3A U+7A7A\<close>; on a grid without rows it returns
  \<open>success = false\<close> with the message \<open>U+6CA1 U+6709 U+6570 U+636E\<close>; in both the grid and the
  registry are as they were. On any other grid in which every row holds an item at the
  configured source column (both of them in date+time mode), it returns \<open>success = true\<close>,
  with one column and one registry record more.
\<close>

theorem convertTimeColumn_outcomes:
  "(\<exists>res. convertTimeColumn L uninit None defs config = Inr (res, None, defs)
          \<and> \<not> success res
          \<and> errorMessage res = [0x6570, 0x636E, 0x6A21, 0x578B, 0x4E3A, 0x7A7A])
   \<and> (rowCount m = 0
       \<longrightarrow> (\<exists>res. convertTimeColumn L uninit (Some m) defs config = Inr (res, Some m, defs)
                 \<and> \<not> success res
                 \<and> errorMessage res = [0x6CA1, 0x6709, 0x6570, 0x636E]))
   \<and> (rowCount m \<noteq> 0 \<and> well_formed m
       \<and> (\<forall>i < rowCount m.
             if useDateAndTime config
             then item m i (dateColumnIndex config) \<noteq> None
                  \<and> item m i (timeColumnIndex config) \<noteq> None
             else item m i (sourceTimeColumnIndex config) \<noteq> None)
       \<longrightarrow> (\<exists>res m' defs'.
              convertTimeColumn L uninit (Some m) defs config = Inr (res, Some m', defs')
              \<and> success res \<and> columnCount m' = columnCount m + 1
              \<and> length defs' = length defs + 1))"
proof (intro conjI impI)
  show "\<exists>res. convertTimeColumn L uninit None defs config = Inr (res, None, defs)
          \<and> \<not> success res
          \<and> errorMessage res = [0x6570, 0x636E, 0x6A21, 0x578B, 0x4E3A, 0x7A7A]"
    by (simp add: ct_null emptyMsg_def)
next
  assume "rowCount m = 0"
  then show "\<exists>res. convertTimeColumn L uninit (Some m) defs config = Inr (res, Some m, defs)
                 \<and> \<not> success res
                 \<and> errorMessage res = [0x6CA1, 0x6709, 0x6570, 0x636E]"
    by (simp add: ct_norows noDataMsg_def)
next
  assume a: "rowCount m \<noteq> 0 \<and> well_formed m
       \<and> (\<forall>i < rowCount m.
             if useDateAndTime config
             then item m i (dateColumnIndex config) \<noteq> None
                  \<and> item m i (timeColumnIndex config) \<noteq> None
             else item m i (sourceTimeColumnIndex config) \<noteq> None)"
  then have pos: "rowCount m \<noteq> 0" and wf: "well_formed m" by simp_all
  from a ct_total [OF pos wf, of config L "name (tcDef config)" 0] obtain m3 b n where
    loop: "forLoop (timeRow L config (columnCount m)) [0..<rowCount m]
                 (withColumn (name (tcDef config)) m, None, 0) = Inr (m3, b, n)"
    by (metis prod_cases3)
  from tc_loop_frame [OF loop wf pos] have "columnCount m3 = columnCount m + 1" by simp
  then show "\<exists>res m' defs'.
              convertTimeColumn L uninit (Some m) defs config = Inr (res, Some m', defs')
              \<and> success res \<and> columnCount m' = columnCount m + 1
              \<and> length defs' = length defs + 1"
    by (simp add: ct_rows [OF pos] loop)
qed

theorem convertTimeColumn_outcomes_example:
  "rowCount gridDT = 2 \<and> well_formed gridDT \<and> useDateAndTime configDT
   \<and> item gridDT 0 (dateColumnIndex configDT) \<noteq> None
   \<and> item gridDT 0 (timeColumnIndex configDT) \<noteq> None
   \<and> item gridDT 1 (dateColumnIndex configDT) \<noteq> None
   \<and> item gridDT 1 (timeColumnIndex configDT) \<noteq> None
   \<and> (\<exists>res m' defs'.
         convertTimeColumn refQt uninit0 (Some gridDT) [] configDT = Inr (res, Some m', defs')
         \<and> success res \<and> columnCount m' = 3 \<and> length defs' = 1)
   \<and> rowCount gridNoRows = 0
   \<and> (\<exists>res. convertTimeColumn refQt uninit0 (Some gridNoRows) [] configDT
               = Inr (res, Some gridNoRows, [])
             \<and> \<not> success res \<and> errorMessage res = [0x6CA1, 0x6709, 0x6570, 0x636E])"
proof -
  have src: "\<forall>i < rowCount gridDT. item gridDT i (dateColumnIndex configDT) \<noteq> None
                            \<and> item gridDT i (timeColumnIndex configDT) \<noteq> None"
    by (auto simp: gridDT_facts config_facts less_Suc_eq numeral_2_eq_2)
  have z: "rowCount gridNoRows = 0" by (simp add: gridNoRows_def rowCount_def)
  from convertTimeColumn_outcomes [of refQt uninit0 "[]" configDT gridDT, THEN conjunct2, THEN conjunct2]
    src gridDT_facts(1,2,3) config_facts(1)
  have a: "\<exists>res m' defs'.
         convertTimeColumn refQt uninit0 (Some gridDT) [] configDT = Inr (res, Some m', defs')
         \<and> success res \<and> columnCount m' = 3 \<and> length defs' = 1"
    by simp
  from convertTimeColumn_outcomes [of refQt uninit0 "[]" configDT gridNoRows, THEN conjunct2, THEN conjunct1] z
  have b: "\<exists>res. convertTimeColumn refQt uninit0 (Some gridNoRows) [] configDT
               = Inr (res, Some gridNoRows, [])
             \<and> \<not> success res \<and> errorMessage res = [0x6CA1, 0x6709, 0x6570, 0x636E]"
    by simp
  from a b z gridDT_facts config_facts show ?thesis by simp
qed

text \<open>
  C3 as stated fails: on a grid with one row whose cell at the configured source column holds
  no item, \<open>model->item(i, column)->text()\<close> is a call on a null pointer, and the function
  does not return.
\<close>

theorem convertTimeColumn_crashes_on_missing_item:
  "rowCount gridHole = 1 \<and> item gridHole 0 (sourceTimeColumnIndex configHole) = None
   \<and> convertTimeColumn refQt uninit0 (Some gridHole) [] configHole = Inl NullPointer"
  by code_simp

lemma setHorizontalHeaderLabels_clear:
  "setHorizontalHeaderLabels labels clear
   = \<lparr>columnCount = length labels, columnHeaderItems = map Some labels, children = []\<rparr>"
  by (cases labels) (simp_all add: setHorizontalHeaderLabels_def clear_def setColumnCount_def Let_def)

lemma deserialize_Cons:
  "deserializeJsonToModel (h # rest) st
   = (fold deserializeRow rest
        \<lparr>columnCount = length (headerLabelsOf h), columnHeaderItems = map Some (headerLabelsOf h),
         children = []\<rparr>,
      map (\<lambda>l. ColumnDefinition0\<lparr>name := l\<rparr>) (headerLabelsOf h))"
proof (cases "containsKey (toObject h) (qs ''headers'')")
  case True
  then show ?thesis
    by (simp add: deserializeJsonToModel_def headerLabelsOf_def Let_def
        setHorizontalHeaderLabels_clear)
next
  case False
  then show ?thesis
    by (simp add: deserializeJsonToModel_def headerLabelsOf_def Let_def clear_def)
qed

lemma deserialize_children:
  assumes "deserializeJsonToModel (h # rest) st = (m, defs)"
  shows "children m = map (\<lambda>v. padRow (columnCount m) (rowData v)) (filter hasRowData rest)"
    and "columnHeaderItems m = resize (columnCount m) (map Some (headerLabelsOf h))"
    and "columnCount m
         = fold max (map (length \<circ> rowData) (filter hasRowData rest)) (length (headerLabelsOf h))"
    and "well_formed m"
    and "defs = map (\<lambda>l. ColumnDefinition0\<lparr>name := l\<rparr>) (headerLabelsOf h)"
proof -
  let ?m1 = "\<lparr>columnCount = length (headerLabelsOf h),
             columnHeaderItems = map Some (headerLabelsOf h), children = []\<rparr>"
  have wf1: "well_formed ?m1" by (simp add: well_formed_def)
  from assms have m: "m = fold deserializeRow rest ?m1"
    and d: "defs = map (\<lambda>l. ColumnDefinition0\<lparr>name := l\<rparr>) (headerLabelsOf h)"
    by (simp_all add: deserialize_Cons)
  from fold_deserializeRow [OF wf1, of rest]
  show "children m = map (\<lambda>v. padRow (columnCount m) (rowData v)) (filter hasRowData rest)"
    and "columnHeaderItems m = resize (columnCount m) (map Some (headerLabelsOf h))"
    by (simp_all add: m)
  show "columnCount m
         = fold max (map (length \<circ> rowData) (filter hasRowData rest)) (length (headerLabelsOf h))"
    by (simp add: m columnCount_fold_deserializeRow)
  show "well_formed m" using wf1 by (simp add: m wf_fold_deserializeRow)
  show "defs = map (\<lambda>l. ColumnDefinition0\<lparr>name := l\<rparr>) (headerLabelsOf h)" by (rule d)
qed

text \<open>
  C10. \<open>deserializeJsonToModel\<close> on an empty array leaves the grid and the registry
  empty; its result never depends on what the grid and the registry held before; and on
  an array \<open>h # rest\<close> the rows of the grid are, in order, the \<open>row_data\<close> arrays of the
  elements of \<open>rest\<close> that have one, the other elements being passed over. Each row holds
  one item per value of its array, neither more nor fewer: the slots that follow, up to the
  column count of the grid, hold no item, and a row longer than the header list is kept
  whole.
\<close>

theorem deserialize_stores_rows_as_given:
  "deserializeJsonToModel ([] :: 'd json list) st = (clear, [])
   \<and> deserializeJsonToModel (array :: 'd json list) st
       = deserializeJsonToModel array (clear, [])
   \<and> (deserializeJsonToModel ((h :: 'd json) # rest) st = (m, defs)
       \<longrightarrow> children m
             = map (\<lambda>v. map Some (map toString (toArray (member (toObject v) (qs ''row_data''))))
                         @ replicate
                             (columnCount m
                              - length (toArray (member (toObject v) (qs ''row_data''))))
                             None)
                   (filter (\<lambda>v. containsKey (toObject v) (qs ''row_data'')) rest)
           \<and> map (\<lambda>row. length (filter (\<lambda>c. c \<noteq> None) row)) (children m)
             = map (\<lambda>v. length (toArray (member (toObject v) (qs ''row_data''))))
                   (filter (\<lambda>v. containsKey (toObject v) (qs ''row_data'')) rest))"
proof (intro conjI impI)
  show "deserializeJsonToModel ([] :: 'd json list) st = (clear, [])"
    by (simp add: deserializeJsonToModel_def)
  show "deserializeJsonToModel array st = deserializeJsonToModel array (clear, [])"
    by (simp add: deserializeJsonToModel_def)
next
  assume a: "deserializeJsonToModel (h # rest) st = (m, defs)"
  have f: "filter (\<lambda>v. containsKey (toObject v) (qs ''row_data'')) rest = filter hasRowData rest"
    by (simp add: hasRowData_def [abs_def])
  have c: "children m = map (\<lambda>v. padRow (columnCount m) (rowData v)) (filter hasRowData rest)"
    by (rule deserialize_children(1) [OF a])
  show "children m
             = map (\<lambda>v. map Some (map toString (toArray (member (toObject v) (qs ''row_data''))))
                         @ replicate
                             (columnCount m
                              - length (toArray (member (toObject v) (qs ''row_data''))))
                             None)
                   (filter (\<lambda>v. containsKey (toObject v) (qs ''row_data'')) rest)"
    unfolding f c by (simp add: padRow_def rowData_def)
  show "map (\<lambda>row. length (filter (\<lambda>c. c \<noteq> None) row)) (children m)
             = map (\<lambda>v. length (toArray (member (toObject v) (qs ''row_data''))))
                   (filter (\<lambda>v. containsKey (toObject v) (qs ''row_data'')) rest)"
    unfolding f c by (simp add: padRow_def rowData_def comp_def)
qed

theorem deserialize_ragged_example:
  "deserializeJsonToModel (jsonHeader # jsonRows) (grid3, defsP) = (gridRagged, defsRagged)
   \<and> children gridRagged
       = [[Some (qs ''1''), None, None], [Some (qs ''1''), Some (qs ''2''), Some (qs ''3'')]]
   \<and> map (\<lambda>row. length (filter (\<lambda>c. c \<noteq> None) row)) (children gridRagged) = [1, 3]
   \<and> deserializeJsonToModel ([] :: int json list) (grid3, defsP) = (clear, [])"
proof -
  have run: "deserializeJsonToModel (jsonHeader # jsonRows) (grid3, defsP)
             = (gridRagged, defsRagged)"
    by code_simp
  have rows: "map (\<lambda>v. map Some (map toString (toArray (member (toObject v) (qs ''row_data''))))
                         @ replicate
                             (columnCount gridRagged
                              - length (toArray (member (toObject v) (qs ''row_data''))))
                             None)
                   (filter (\<lambda>v. containsKey (toObject v) (qs ''row_data'')) jsonRows)
              = [[Some (qs ''1''), None, None],
                 [Some (qs ''1''), Some (qs ''2''), Some (qs ''3'')]]"
    by code_simp
  have cnt: "map (\<lambda>v. length (toArray (member (toObject v) (qs ''row_data''))))
                   (filter (\<lambda>v. containsKey (toObject v) (qs ''row_data'')) jsonRows)
             = [1, 3]"
    by code_simp
  from deserialize_stores_rows_as_given
         [of "(grid3, defsP)" "[]" jsonHeader jsonRows gridRagged defsRagged] run rows cnt
  show ?thesis by simp
qed

lemma those_map_Some:
  "(\<forall>x\<in>set xs. f x \<noteq> None) \<Longrightarrow> those (map f xs) = Some (map (\<lambda>x. the (f x)) xs)"
  by (induction xs) auto

lemma those_map_None:
  "x \<in> set xs \<Longrightarrow> f x = None \<Longrightarrow> those (map f xs) = None"
  by (induction xs) (auto split: option.splits)

lemma rowTexts_Some:
  assumes "\<forall>j<columnCount m. item m i (int j) \<noteq> None"
  shows "rowTexts m i = Some (map (\<lambda>j. the (item m i (int j))) [0..<columnCount m])"
  unfolding rowTexts_def using assms by (intro those_map_Some) simp

lemma serialize_allItems:
  assumes "allItems m"
  shows "serializeModelToJson m
         = Inr (headerObj (map (headerData m) [0..<columnCount m]) # map rowObj (cellTexts m))"
proof -
  have "those (map (rowTexts m) [0..<rowCount m])
        = Some (map (\<lambda>i. the (rowTexts m i)) [0..<rowCount m])"
    using assms by (intro those_map_Some) (simp add: rowTexts_Some allItems_def)
  moreover have "map (\<lambda>i. the (rowTexts m i)) [0..<rowCount m] = cellTexts m"
    using assms by (simp add: cellTexts_def rowTexts_Some allItems_def)
  ultimately show ?thesis
    by (simp add: serializeModelToJson_def Let_def headerObj_def rowObj_def [abs_def])
qed

lemma serialize_missing_item:
  assumes "i < rowCount m" and "j < columnCount m" and "item m i (int j) = None"
  shows "serializeModelToJson m = Inl NullPointer"
proof -
  have "rowTexts m i = None"
    unfolding rowTexts_def using assms(2,3) by (intro those_map_None [of j]) simp_all
  with assms(1) have "those (map (rowTexts m) [0..<rowCount m]) = None"
    by (intro those_map_None [of i]) simp_all
  then show ?thesis by (simp add: serializeModelToJson_def Let_def)
qed

lemma rowObj_facts: "hasRowData (rowObj row)" "rowData (rowObj row) = row"
  by (simp_all add: hasRowData_def rowData_def rowObj_def toObject_def containsKey_def
      member_def toArray_def toString_def comp_def)

lemma headerObj_labels: "headerLabelsOf (headerObj hs) = hs"
  by (simp add: headerLabelsOf_def headerObj_def toObject_def containsKey_def
      member_def toArray_def toString_def comp_def)

lemma fold_max_same: "(\<forall>x\<in>set xs. x \<le> c) \<Longrightarrow> fold max xs (c::nat) = c"
  by (induction xs) (simp_all add: max_absorb2)

lemma cellTexts_children:
  assumes wf: "well_formed m" and full: "allItems m"
  shows "map (map Some) (cellTexts m) = children m"
proof (rule nth_equalityI)
  show "length (map (map Some) (cellTexts m)) = length (children m)"
    by (simp add: cellTexts_def rowCount_def)
next
  fix i assume "i < length (map (map Some) (cellTexts m))"
  then have i: "i < rowCount m" by (simp add: cellTexts_def)
  then have "children m ! i \<in> set (children m)" by (simp add: rowCount_def)
  with wf have len: "length (children m ! i) = columnCount m"
    by (simp add: well_formed_def list_all_iff)
  have "map Some (cellTexts m ! i) = children m ! i"
  proof (rule nth_equalityI)
    show "length (map Some (cellTexts m ! i)) = length (children m ! i)"
      using i len by (simp add: cellTexts_def)
  next
    fix j assume "j < length (map Some (cellTexts m ! i))"
    then have j: "j < columnCount m" using i by (simp add: cellTexts_def)
    with full i have "item m i (int j) \<noteq> None" by (simp add: allItems_def)
    moreover have "item m i (int j) = children m ! i ! j" using i j by (simp add: item_def)
    ultimately show "map Some (cellTexts m ! i) ! j = children m ! i ! j"
      using i j by (auto simp: cellTexts_def)
  qed
  with i show "map (map Some) (cellTexts m) ! i = children m ! i"
    by (simp add: cellTexts_def)
qed

lemma round_trip_grid:
  assumes wf: "well_formed m" and full: "allItems m"
    and d: "deserializeJsonToModel
              (headerObj (map (headerData m) [0..<columnCount m]) # map rowObj (cellTexts m)) st
            = (m', defs')"
  shows "columnCount m' = columnCount m"
    and "children m' = children m"
    and "columnHeaderItems m' = map (\<lambda>j. Some (headerData m j)) [0..<columnCount m]"
    and "defs' = map (\<lambda>j. ColumnDefinition0\<lparr>name := headerData m j\<rparr>) [0..<columnCount m]"
proof -
  let ?C = "columnCount m"
  note k = deserialize_children [OF d, unfolded headerObj_labels]
  have f: "filter hasRowData (map rowObj (cellTexts m)) = map rowObj (cellTexts m)"
    by (simp add: rowObj_facts filter_map comp_def)
  have l: "\<forall>row\<in>set (cellTexts m). length row = ?C" by (auto simp: cellTexts_def)
  have "columnCount m' = fold max (map length (cellTexts m)) ?C"
    unfolding k(3) f by (simp add: comp_def rowObj_facts)
  also have "\<dots> = ?C" using l by (intro fold_max_same) simp
  finally show c: "columnCount m' = ?C" .
  have "children m' = map (padRow ?C) (cellTexts m)"
    unfolding k(1) f c by (simp add: comp_def rowObj_facts)
  also have "\<dots> = map (map Some) (cellTexts m)"
    using l by (intro map_cong refl) (simp add: padRow_def)
  also have "\<dots> = children m" by (rule cellTexts_children [OF wf full])
  finally show "children m' = children m" .
  show "columnHeaderItems m' = map (\<lambda>j. Some (headerData m j)) [0..<?C]"
    unfolding k(2) c by (simp add: resize_same comp_def)
  show "defs' = map (\<lambda>j. ColumnDefinition0\<lparr>name := headerData m j\<rparr>) [0..<?C]"
    unfolding k(5) by (simp add: comp_def)
qed

text \<open>
  C4, as amended. For every grid in which every cell holds an item, serialization returns an
  array, and deserializing that array gives a grid with the same number of columns and rows,
  the same header text in every column and the same item in every cell; the registry it
  gives is one default definition per header (type \<open>Custom\<close>, no unit, not required, three
  decimal places), whatever the registry held before.
\<close>

theorem serialize_deserialize_round_trip:
  assumes "well_formed m"
    and "\<forall>i<rowCount m. \<forall>j<columnCount m. item m i (int j) \<noteq> None"
  shows "\<exists>(js :: 'd json list) m' defs'.
           serializeModelToJson m = Inr js
           \<and> deserializeJsonToModel js st = (m', defs')
           \<and> columnCount m' = columnCount m \<and> rowCount m' = rowCount m
           \<and> (\<forall>j<columnCount m. headerData m' j = headerData m j)
           \<and> (\<forall>i j. item m' i j = item m i j)
           \<and> defs' = map (\<lambda>j. \<lparr>name = headerData m j, type = Custom, unit = [],
                                 isRequired = False, decimalPlaces = 3\<rparr>)
                          [0..<columnCount m]"
proof -
  let ?js = "headerObj (map (headerData m) [0..<columnCount m]) # map rowObj (cellTexts m)
             :: 'd json list"
  from assms(2) have full: "allItems m" by (simp add: allItems_def)
  obtain m' defs' where d: "deserializeJsonToModel ?js st = (m', defs')"
    by (cases "deserializeJsonToModel ?js st") blast
  note k = round_trip_grid [OF assms(1) full d]
  have s: "serializeModelToJson m = Inr ?js" by (rule serialize_allItems [OF full])
  have r: "rowCount m' = rowCount m" by (simp add: rowCount_def k(2))
  have h: "\<forall>j<columnCount m. headerData m' j = headerData m j"
  proof (intro allI impI)
    fix j assume j: "j < columnCount m"
    then have "columnHeaderItems m' ! j = Some (headerData m j)" by (simp add: k(3))
    with j show "headerData m' j = headerData m j" by (simp add: headerData_def [of m'] k(1))
  qed
  have i: "\<forall>i j. item m' i j = item m i j"
    by (simp add: item_def k(1,2) r)
  have e: "defs' = map (\<lambda>j. \<lparr>name = headerData m j, type = Custom, unit = [],
                                 isRequired = False, decimalPlaces = 3\<rparr>)
                          [0..<columnCount m]"
    unfolding k(4) by (simp add: ColumnDefinition0_def)
  show ?thesis
    by (intro exI [of _ ?js] exI [of _ m'] exI [of _ defs'] conjI s d k(1) r h i e)
qed

theorem round_trip_example:
  "well_formed gridDT
   \<and> item gridDT 0 0 \<noteq> None \<and> item gridDT 0 1 \<noteq> None
   \<and> item gridDT 1 0 \<noteq> None \<and> item gridDT 1 1 \<noteq> None
   \<and> (\<exists>js m' defs'.
         serializeModelToJson gridDT = Inr (js :: int json list)
         \<and> deserializeJsonToModel js (grid3, defsP) = (m', defs')
         \<and> columnCount m' = 2 \<and> rowCount m' = 2
         \<and> headerData m' 0 = qs ''Date'' \<and> headerData m' 1 = qs ''Clock''
         \<and> item m' 0 0 = Some (qs ''2025-01-01'') \<and> item m' 1 1 = Some (qs ''11:00:00'')
         \<and> defs' = [\<lparr>name = qs ''Date'', type = Custom, unit = [], isRequired = False,
                      decimalPlaces = 3\<rparr>,
                     \<lparr>name = qs ''Clock'', type = Custom, unit = [], isRequired = False,
                      decimalPlaces = 3\<rparr>])"
proof -
  have full: "\<forall>i<rowCount gridDT. \<forall>j<columnCount gridDT. item gridDT i (int j) \<noteq> None"
    by (simp add: gridDT_facts numeral_2_eq_2 less_Suc_eq)
  have hd: "headerData gridDT 0 = qs ''Date''" "headerData gridDT 1 = qs ''Clock''"
    "headerData gridDT (Suc 0) = qs ''Clock''"
    by (simp_all add: headerData_def gridDT_def)
  have up: "[0..<2] = [0, Suc 0]" by (simp add: upt_rec numeral_2_eq_2)
  from serialize_deserialize_round_trip [OF gridDT_facts(1) full, of "(grid3, defsP)"]
  obtain js :: "int json list" and m' defs' where
    k: "serializeModelToJson gridDT = Inr js"
      "deserializeJsonToModel js (grid3, defsP) = (m', defs')"
      "columnCount m' = columnCount gridDT" "rowCount m' = rowCount gridDT"
      "\<forall>j<columnCount gridDT. headerData m' j = headerData gridDT j"
      "\<forall>i j. item m' i j = item gridDT i j"
      "defs' = map (\<lambda>j. \<lparr>name = headerData gridDT j, type = Custom, unit = [],
                                 isRequired = False, decimalPlaces = 3\<rparr>)
                          [0..<columnCount gridDT]"
    by blast
  from k(5) have h: "headerData m' 0 = qs ''Date''" "headerData m' 1 = qs ''Clock''"
    by (simp_all add: gridDT_facts hd)
  have e: "\<exists>js m' defs'.
         serializeModelToJson gridDT = Inr (js :: int json list)
         \<and> deserializeJsonToModel js (grid3, defsP) = (m', defs')
         \<and> columnCount m' = 2 \<and> rowCount m' = 2
         \<and> headerData m' 0 = qs ''Date'' \<and> headerData m' 1 = qs ''Clock''
         \<and> item m' 0 0 = Some (qs ''2025-01-01'') \<and> item m' 1 1 = Some (qs ''11:00:00'')
         \<and> defs' = [\<lparr>name = qs ''Date'', type = Custom, unit = [], isRequired = False,
                      decimalPlaces = 3\<rparr>,
                     \<lparr>name = qs ''Clock'', type = Custom, unit = [], isRequired = False,
                      decimalPlaces = 3\<rparr>]"
    apply (rule exI [of _ js], rule exI [of _ m'], rule exI [of _ defs'])
    using k(1,2,3,4,6,7) h by (simp add: gridDT_facts hd up)
  from e gridDT_facts show ?thesis by simp
qed

text \<open>
  C4 as stated fails: on a grid with a cell that holds no item,
  \<open>m_dataModel->item(i, j)->text()\<close> is a call on a null pointer and serialization does not
  return an array, so there is nothing to deserialize.
\<close>

theorem serialize_crashes_on_missing_item:
  "well_formed gridHole \<and> rowCount gridHole = 1 \<and> columnCount gridHole = 2
   \<and> item gridHole 0 1 = None
   \<and> (serializeModelToJson gridHole :: error + int json list) = Inl NullPointer"
  by code_simp

text \<open>
  \<open>convertTimeColumn\<close> sets \<open>processedRows\<close> to zero before it counts: on success the
  count is the number of rows that parsed, and at most the number of rows.
\<close>

lemma ct_processedRows:
  assumes run: "convertTimeColumn L u (Some m) defs config = Inr (res, model', defs')"
    and ok: "success res" and wf: "well_formed m"
  shows "processedRows res
         = (if useDateAndTime config
            then int (length (filter (\<lambda>i. dtParse L (the (dtRead config m i)) \<noteq> None)
                                [0..<rowCount m]))
            else int (length (filter
                   (\<lambda>i. toParse L (the (item m i (sourceTimeColumnIndex config))) \<noteq> None)
                   [0..<rowCount m])))"
    and "0 \<le> processedRows res" and "processedRows res \<le> int (rowCount m)"
proof -
  from ct_success [OF run ok] obtain m3 b n where
    pos: "rowCount m \<noteq> 0"
    and loop: "forLoop (timeRow L config (columnCount m)) [0..<rowCount m]
                 (withColumn (name (tcDef config)) m, None, 0) = Inr (m3, b, n)"
    and res: "res = (declared u)\<lparr>success := True, processedRows := n,
                                  addedColumnIndex := int (columnCount m),
                                  columnName := name (tcDef config)\<rparr>"
    by auto
  show e: "processedRows res
         = (if useDateAndTime config
            then int (length (filter (\<lambda>i. dtParse L (the (dtRead config m i)) \<noteq> None)
                                [0..<rowCount m]))
            else int (length (filter
                   (\<lambda>i. toParse L (the (item m i (sourceTimeColumnIndex config))) \<noteq> None)
                   [0..<rowCount m])))"
  proof (cases "useDateAndTime config")
    case True
    from tc_loop_dt(3) [OF loop wf True pos] res True show ?thesis by simp
  next
    case False
    from tc_loop_to(3) [OF loop wf False pos] res False show ?thesis by simp
  qed
  show "0 \<le> processedRows res" unfolding e by simp
  have "length (filter P [0..<rowCount m]) \<le> rowCount m" for P
    using length_filter_le [of P "[0..<rowCount m]"] by simp
  then show "processedRows res \<le> int (rowCount m)" unfolding e by simp
qed

lemma pd_total:
  assumes wf: "well_formed m" and items: "\<forall>i < rowCount m. item m i (int p) \<noteq> None"
  shows "\<exists>s'. forLoop (dropRow L p (columnCount m)) [0..<rowCount m]
                 (withColumn nm m, None, n) = Inr s'"
proof (cases "rowCount m = 0")
  case True
  then show ?thesis by simp
next
  case False
  note w = withColumn_facts [OF wf, of nm]
  from False items have "item m 0 (int p) \<noteq> None" by simp
  then have ne: "int p \<noteq> int (columnCount m)" by (auto simp: item_def)
  have c: "columnCount m < columnCount (withColumn nm m)" by (simp add: w(3))
  have rows: "\<forall>i \<in> set [0..<rowCount m]. i < rowCount (withColumn nm m)" by (simp add: w(2))
  have rd: "\<forall>i \<in> set [0..<rowCount m]. item (withColumn nm m) i (int p) \<noteq> None"
    using items ne by (simp add: w(5))
  from gloop_total [where rd = "\<lambda>m i. item m i (int p)",
                    OF w(1) c rows stable_item [OF ne] rd]
  show ?thesis by (simp add: dropRow_gbody)
qed

text \<open>
  C5, as amended. On a grid whose pressure column is found within the registry and holds an
  item in every row, \<open>calculatePressureDrop\<close> returns \<open>success = true\<close>, and every row
  \<open>i\<close> is settled by its pressure text. If the text does not parse, the new cell of the row
  is the empty text. If it parses to \<open>v\<close>, there is a baseline row \<open>k\<close> at or before \<open>i\<close>,
  the first row whose pressure text parses, with value \<open>b\<close>, and the new cell of row \<open>i\<close> is
  \<open>b - v\<close> printed with three decimals. The baseline row's own cell is \<open>b - b\<close> printed
  with three decimals: that is 0.000 for a baseline of a class \<open>fin\<close> of numbers on which the
  library prints \<open>x - x\<close> as 0.000, as IEEE arithmetic does on the finite doubles.
  Subtraction and printing are the library's. For the column abc, 100, 90, 80 the cells
  are the empty text, 0.000, 10.000 and 20.000; for 100, 90, 80 they are 0.000, 10.000 and
  20.000.
\<close>

theorem pressure_drop_relative_to_first_parsed_row:
  assumes "well_formed m"
    and "findPressureColumn L (Some m) defs = Inr (Some p)"
    and "p < length defs"
    and "\<forall>i < rowCount m. item m i (int p) \<noteq> None"
  shows "\<exists>res m' defs'.
           calculatePressureDrop L uninit (Some m) defs = Inr (res, Some m', defs')
           \<and> success res
           \<and> (\<forall>i < rowCount m. \<exists>pText. item m i (int p) = Some pText \<and>
                (case toDouble L pText of
                   None \<Rightarrow> item m' i (int (columnCount m)) = Some []
                 | Some v \<Rightarrow>
                     (\<exists>k kText b. k \<le> i \<and> item m k (int p) = Some kText
                        \<and> toDouble L kText = Some b
                        \<and> (\<forall>j < k. \<exists>t. item m j (int p) = Some t \<and> toDouble L t = None)
                        \<and> item m' i (int (columnCount m)) = Some (number_f3 L (dsub L b v))
                        \<and> item m' k (int (columnCount m)) = Some (number_f3 L (dsub L b b))
                        \<and> ((\<forall>x. fin x \<longrightarrow> number_f3 L (dsub L x x) = qs ''0.000'') \<and> fin b
                            \<longrightarrow> item m' k (int (columnCount m)) = Some (qs ''0.000'')))))"
proof -
  let ?nm = "name (pdDef (unit (defs ! p)))"
  from pd_total [OF assms(1,4), of L ?nm "processedRows uninit"] obtain m' b0 n where
    loop: "forLoop (dropRow L p (columnCount m)) [0..<rowCount m]
                 (withColumn ?nm m, None, processedRows uninit) = Inr (m', b0, n)"
    by (metis prod_cases3)
  let ?res = "(declared uninit)\<lparr>success := True, processedRows := n,
                              addedColumnIndex := int (columnCount m), columnName := ?nm\<rparr>"
  have run: "calculatePressureDrop L uninit (Some m) defs
             = Inr (?res, Some m', defs @ [pdDef (unit (defs ! p))])"
    unfolding pd_found [OF assms(2,3,1)] loop by simp
  have ok: "success ?res" by simp
  note l = pd_loop [OF loop assms(1)]
  let ?xs = "map (\<lambda>i. the (item m i (int p))) [0..<rowCount m]"
  have cell: "\<And>r. r < rowCount m \<Longrightarrow> item m' r (int (columnCount m))
           = Some (case toDouble L (the (item m r (int p))) of
                     None \<Rightarrow> []
                   | Some v \<Rightarrow> number_f3 L (dsub L (the (firstSome (toDouble L) ?xs)) v))"
    using l(4) by blast
  have rows: "\<forall>i < rowCount m. \<exists>pText. item m i (int p) = Some pText \<and>
                (case toDouble L pText of
                   None \<Rightarrow> item m' i (int (columnCount m)) = Some []
                 | Some v \<Rightarrow>
                     (\<exists>k kText b. k \<le> i \<and> item m k (int p) = Some kText
                        \<and> toDouble L kText = Some b
                        \<and> (\<forall>j < k. \<exists>t. item m j (int p) = Some t \<and> toDouble L t = None)
                        \<and> item m' i (int (columnCount m)) = Some (number_f3 L (dsub L b v))
                        \<and> item m' k (int (columnCount m)) = Some (number_f3 L (dsub L b b))
                        \<and> ((\<forall>x. fin x \<longrightarrow> number_f3 L (dsub L x x) = qs ''0.000'') \<and> fin b
                            \<longrightarrow> item m' k (int (columnCount m)) = Some (qs ''0.000''))))"
  proof (intro allI impI)
    fix i assume i: "i < rowCount m"
    from assms(4) i obtain pText where pText: "item m i (int p) = Some pText" by auto
    show "\<exists>pText. item m i (int p) = Some pText \<and>
                (case toDouble L pText of
                   None \<Rightarrow> item m' i (int (columnCount m)) = Some []
                 | Some v \<Rightarrow>
                     (\<exists>k kText b. k \<le> i \<and> item m k (int p) = Some kText
                        \<and> toDouble L kText = Some b
                        \<and> (\<forall>j < k. \<exists>t. item m j (int p) = Some t \<and> toDouble L t = None)
                        \<and> item m' i (int (columnCount m)) = Some (number_f3 L (dsub L b v))
                        \<and> item m' k (int (columnCount m)) = Some (number_f3 L (dsub L b b))
                        \<and> ((\<forall>x. fin x \<longrightarrow> number_f3 L (dsub L x x) = qs ''0.000'') \<and> fin b
                            \<longrightarrow> item m' k (int (columnCount m)) = Some (qs ''0.000''))))"
    proof (cases "toDouble L pText")
      case None
      with cell [OF i] pText show ?thesis by simp
    next
      case (Some v)
      have "i < length ?xs" "toDouble L (?xs ! i) = Some v"
        using i pText Some by simp_all
      from firstSome_exists [of i ?xs "toDouble L" v, OF this] obtain k b where
        k: "k \<le> i" "toDouble L (?xs ! k) = Some b" "\<forall>j < k. toDouble L (?xs ! j) = None"
           "firstSome (toDouble L) ?xs = Some b"
        by blast
      have kr: "k < rowCount m" using k(1) i by simp
      from assms(4) kr obtain kText where kText: "item m k (int p) = Some kText" by auto
      have kb: "toDouble L kText = Some b" using k(2) kr kText by simp
      have before: "\<forall>j < k. \<exists>t. item m j (int p) = Some t \<and> toDouble L t = None"
      proof (intro allI impI)
        fix j assume j: "j < k"
        then have jr: "j < rowCount m" using kr by simp
        with assms(4) obtain t where "item m j (int p) = Some t" by auto
        moreover from k(3) [rule_format, OF j] jr
        have "toDouble L (the (item m j (int p))) = None" by simp
        ultimately show "\<exists>t. item m j (int p) = Some t \<and> toDouble L t = None" by simp
      qed
      have ci: "item m' i (int (columnCount m)) = Some (number_f3 L (dsub L b v))"
        using cell [OF i] pText Some k(4) by simp
      have ck: "item m' k (int (columnCount m)) = Some (number_f3 L (dsub L b b))"
        using cell [OF kr] kText kb k(4) by simp
      have cz: "(\<forall>x. fin x \<longrightarrow> number_f3 L (dsub L x x) = qs ''0.000'') \<and> fin b
                  \<longrightarrow> item m' k (int (columnCount m)) = Some (qs ''0.000'')"
        using ck by simp
      from k(1) kText kb before ci ck cz pText Some show ?thesis by auto
    qed
  qed
  show ?thesis
    by (intro exI [of _ ?res] exI [of _ m'] exI [of _ "defs @ [pdDef (unit (defs ! p))]"]
        conjI run ok rows)
qed

lemma grid4_src:
  "item grid4 0 0 = Some (qs ''abc'')" "item grid4 1 0 = Some (qs ''100'')"
  "item grid4 2 0 = Some (qs ''90'')" "item grid4 3 0 = Some (qs ''80'')"
  "item grid4 (Suc 0) 0 = Some (qs ''100'')"
  "rowCount grid4 = 4" "columnCount grid4 = 1" "well_formed grid4"
  by (simp_all add: grid4_def item_def rowCount_def well_formed_def)

lemma ieee_values:
  "toDouble ieeeQt (qs ''abc'') = None"
  "toDouble ieeeQt (qs ''100'') = Some (Fin 100000)"
  "toDouble ieeeQt (qs ''90'') = Some (Fin 90000)"
  "toDouble ieeeQt (qs ''80'') = Some (Fin 80000)"
  "number_f3 ieeeQt (dsub ieeeQt (Fin 100000) (Fin 90000)) = qs ''10.000''"
  "number_f3 ieeeQt (dsub ieeeQt (Fin 100000) (Fin 80000)) = qs ''20.000''"
  by code_simp+

lemma ieee_zero_difference:
  "\<forall>x. isFinite x \<longrightarrow> number_f3 ieeeQt (dsub ieeeQt x x) = qs ''0.000''"
proof (intro allI impI)
  fix x assume "isFinite x"
  then obtain a where x: "x = Fin a" by (cases x) auto
  have "ref_number_f3 0 = qs ''0.000''" by code_simp
  then show "number_f3 ieeeQt (dsub ieeeQt x x) = qs ''0.000''"
    by (simp add: ieeeQt_def x)
qed

theorem pressure_drop_abc_100_90_80:
  "well_formed grid4
   \<and> findPressureColumn ieeeQt (Some grid4) defsP = Inr (Some 0) \<and> 0 < length defsP
   \<and> map (\<lambda>i. item grid4 i 0) [0, 1, 2, 3]
       = [Some (qs ''abc''), Some (qs ''100''), Some (qs ''90''), Some (qs ''80'')]
   \<and> map (toDouble ieeeQt) [qs ''abc'', qs ''100'', qs ''90'', qs ''80'']
       = [None, Some (Fin 100000), Some (Fin 90000), Some (Fin 80000)]
   \<and> isFinite (Fin 100000)
   \<and> (\<exists>res m' defs'.
         calculatePressureDrop ieeeQt uninit0 (Some grid4) defsP = Inr (res, Some m', defs')
         \<and> success res
         \<and> map (\<lambda>i. item m' i 1) [0, 1, 2, 3]
             = [Some [], Some (qs ''0.000''), Some (qs ''10.000''), Some (qs ''20.000'')])
   \<and> calculatePressureDrop ieeeQt uninit0 (Some grid3) defsP
       = Inr (res3, Some grid3_drop, defsP_drop)"
proof -
  have find: "findPressureColumn ieeeQt (Some grid4) defsP = Inr (Some 0)" by code_simp
  have inb: "0 < length defsP" by (simp add: defsP_def)
  have four: "\<And>i. i < (4::nat) \<Longrightarrow> i = 0 \<or> i = 1 \<or> i = 2 \<or> i = 3" by arith
  have items: "\<forall>i < rowCount grid4. item grid4 i (int 0) \<noteq> None"
  proof (intro allI impI)
    fix i assume "i < rowCount grid4"
    then have "i < 4" by (simp add: grid4_src)
    from four [OF this] show "item grid4 i (int 0) \<noteq> None"
      by (auto simp: grid4_src)
  qed
  have run3: "calculatePressureDrop ieeeQt uninit0 (Some grid3) defsP
              = Inr (res3, Some grid3_drop, defsP_drop)"
    by code_simp
  from pressure_drop_relative_to_first_parsed_row
         [OF grid4_src(8) find inb items, of uninit0 isFinite]
  obtain res m' defs' where
    run: "calculatePressureDrop ieeeQt uninit0 (Some grid4) defsP = Inr (res, Some m', defs')"
    and ok: "success res"
    and rows: "\<forall>i < rowCount grid4. \<exists>pText. item grid4 i (int 0) = Some pText \<and>
                (case toDouble ieeeQt pText of
                   None \<Rightarrow> item m' i (int (columnCount grid4)) = Some []
                 | Some v \<Rightarrow>
                     (\<exists>k kText b. k \<le> i \<and> item grid4 k (int 0) = Some kText
                        \<and> toDouble ieeeQt kText = Some b
                        \<and> (\<forall>j < k. \<exists>t. item grid4 j (int 0) = Some t
                                        \<and> toDouble ieeeQt t = None)
                        \<and> item m' i (int (columnCount grid4))
                            = Some (number_f3 ieeeQt (dsub ieeeQt b v))
                        \<and> item m' k (int (columnCount grid4))
                            = Some (number_f3 ieeeQt (dsub ieeeQt b b))
                        \<and> ((\<forall>x. isFinite x
                                 \<longrightarrow> number_f3 ieeeQt (dsub ieeeQt x x) = qs ''0.000'')
                            \<and> isFinite b
                            \<longrightarrow> item m' k (int (columnCount grid4)) = Some (qs ''0.000''))))"
    by blast
  have c0: "item m' 0 1 = Some []"
    using rows [rule_format, of 0] by (simp add: grid4_src ieee_values)
  have k1: "\<And>k kText b. item grid4 k 0 = Some kText \<Longrightarrow> toDouble ieeeQt kText = Some b \<Longrightarrow>
      \<forall>j<k. \<exists>t. item grid4 j 0 = Some t \<and> toDouble ieeeQt t = None
      \<Longrightarrow> k = 1 \<and> b = Fin 100000"
  proof -
    fix k kText b
    assume a: "item grid4 k 0 = Some kText" "toDouble ieeeQt kText = Some b"
      "\<forall>j<k. \<exists>t. item grid4 j 0 = Some t \<and> toDouble ieeeQt t = None"
    have n0: "k \<noteq> 0"
    proof
      assume "k = 0"
      with a(1) have "kText = qs ''abc''" by (simp add: grid4_src)
      with a(2) show False by (simp add: ieee_values)
    qed
    have "\<not> 1 < k"
    proof
      assume "1 < k"
      with a(3) have "\<exists>t. item grid4 1 0 = Some t \<and> toDouble ieeeQt t = None" by blast
      then show False by (simp add: grid4_src ieee_values)
    qed
    with n0 have k: "k = 1" by arith
    with a(1) have "kText = qs ''100''" by (simp add: grid4_src)
    with a(2) k show "k = 1 \<and> b = Fin 100000" by (simp add: ieee_values)
  qed
  have cell: "\<And>i pText v. i < 4 \<Longrightarrow> item grid4 i 0 = Some pText
      \<Longrightarrow> toDouble ieeeQt pText = Some v
      \<Longrightarrow> item m' i 1 = Some (number_f3 ieeeQt (dsub ieeeQt (Fin 100000) v))
          \<and> item m' 1 1 = Some (qs ''0.000'')"
  proof -
    fix i pText v
    assume a: "i < (4::nat)" "item grid4 i 0 = Some pText" "toDouble ieeeQt pText = Some v"
    from rows [rule_format, of i] a obtain k kText b where
      k: "item grid4 k 0 = Some kText" "toDouble ieeeQt kText = Some b"
         "\<forall>j<k. \<exists>t. item grid4 j 0 = Some t \<and> toDouble ieeeQt t = None"
         "item m' i 1 = Some (number_f3 ieeeQt (dsub ieeeQt b v))"
         "(\<forall>x. isFinite x \<longrightarrow> number_f3 ieeeQt (dsub ieeeQt x x) = qs ''0.000'')
          \<and> isFinite b \<longrightarrow> item m' k 1 = Some (qs ''0.000'')"
      by (auto simp: grid4_src)
    from k1 [OF k(1,2,3)] have kb: "k = 1" "b = Fin 100000" by simp_all
    from k(5) ieee_zero_difference have "item m' 1 1 = Some (qs ''0.000'')"
      unfolding kb by simp
    with k(4) show "item m' i 1 = Some (number_f3 ieeeQt (dsub ieeeQt (Fin 100000) v))
          \<and> item m' 1 1 = Some (qs ''0.000'')"
      unfolding kb by simp
  qed
  have c1: "item m' 1 1 = Some (qs ''0.000'')"
    using cell [OF _ grid4_src(2) ieee_values(2), THEN conjunct2] by simp
  have c2: "item m' 2 1 = Some (qs ''10.000'')"
    using cell [OF _ grid4_src(3) ieee_values(3), THEN conjunct1] by (simp add: ieee_values)
  have c3: "item m' 3 1 = Some (qs ''20.000'')"
    using cell [OF _ grid4_src(4) ieee_values(4), THEN conjunct1] by (simp add: ieee_values)
  have e: "\<exists>res m' defs'.
         calculatePressureDrop ieeeQt uninit0 (Some grid4) defsP = Inr (res, Some m', defs')
         \<and> success res
         \<and> map (\<lambda>i. item m' i 1) [0, 1, 2, 3]
             = [Some [], Some (qs ''0.000''), Some (qs ''10.000''), Some (qs ''20.000'')]"
    apply (rule exI [of _ res], rule exI [of _ m'], rule exI [of _ defs'])
    using run ok c0 c1 c2 c3 by simp
  from e find inb run3 show ?thesis
    by (simp add: grid4_src ieee_values)
qed

text \<open>
  C5 as stated fails: \<open>toDouble\<close> reads the text \<open>inf\<close> as a number, so a first row
  \<open>inf\<close> is the baseline; its own drop is infinity less infinity, which is not a number, and
  the cell of the baseline row reads \<open>nan\<close>, not \<open>0.000\<close>.
\<close>

theorem pressure_drop_of_inf_baseline:
  "well_formed gridInf \<and> findPressureColumn ieeeQt (Some gridInf) defsP = Inr (Some 0)
   \<and> item gridInf 0 0 = Some (qs ''inf'') \<and> toDouble ieeeQt (qs ''inf'') = Some PInf
   \<and> item gridInf 1 0 = Some (qs ''90'') \<and> toDouble ieeeQt (qs ''90'') = Some (Fin 90000)
   \<and> calculatePressureDrop ieeeQt uninit0 (Some gridInf) defsP
     = Inr (\<lparr>success = True, errorMessage = [], addedColumnIndex = 1,
             columnName = [0x538B, 0x964D, 0x5C] @ qs ''MPa'', processedRows = 9\<rparr>,
            Some \<lparr>columnCount = 2,
                  columnHeaderItems = [Some (qs ''P''), Some ([0x538B, 0x964D, 0x5C] @ qs ''MPa'')],
                  children = [[Some (qs ''inf''), Some (qs ''nan'')],
                              [Some (qs ''90''), Some (qs ''inf'')]]\<rparr>,
            defsP_drop)"
  by code_simp

end
